theory Spec2Isabelle
  imports Main "HOL-Library.Word" "HOL-Library.Multiset"
begin

section \<open>The to-do list of script.js\<close>

text \<open>
  script.js keeps one array of to-do items as JSON text under the key \<^verbatim>\<open>todoList\<close> of the
  browser's local storage. Every operation reads the text, parses it, changes the array,
  writes it back and renders the page again. The theory follows the file function by
  function: \<^verbatim>\<open>loadTodoList\<close>, \<^verbatim>\<open>saveTodoList\<close>, \<^verbatim>\<open>renderTodoList\<close>, \<^verbatim>\<open>addItem\<close>,
  \<^verbatim>\<open>deleteItem\<close>, \<^verbatim>\<open>toggleComplete\<close>. What the platform supplies (\<^verbatim>\<open>JSON.parse\<close>,
  \<^verbatim>\<open>JSON.stringify\<close>, \<^verbatim>\<open>Date\<close>, \<^verbatim>\<open>Array.prototype.sort\<close>, \<^verbatim>\<open>String.prototype.trim\<close>) is
  modelled after ECMA-262.
\<close>

subsection \<open>Strings and JSON values\<close>

text \<open>
  A JavaScript string is a sequence of 16-bit code units. \<^verbatim>\<open>str\<close> writes an ASCII literal
  as such a sequence.
\<close>

type_synonym unit16 = "16 word"
type_synonym jsstring = "unit16 list"

definition str :: "string \<Rightarrow> jsstring" where
  "str s = map (\<lambda>c. of_nat (of_char c)) s"

text \<open>
  What \<^verbatim>\<open>JSON.parse\<close> can return. A number is kept as its literal: the script never
  computes with one, and a stored text that holds one is outside the embedding (see
  \<^verbatim>\<open>decode_prim\<close>). The members of an object are listed in the order in which they were
  created.
\<close>

datatype json =
    JNull
  | JBool bool
  | JNum jsstring
  | JStr jsstring
  | JArr "json list"
  | JObj "(jsstring \<times> json) list"

text \<open>
  \<^verbatim>\<open>SyntaxError\<close> is the exception of \<^verbatim>\<open>JSON.parse\<close>, the only one the script can raise
  on the stored texts the embedding covers. \<^verbatim>\<open>OutsideModel\<close> is no behaviour of the script:
  it marks a stored text that is well-formed JSON but not a list of items as defined
  below, about which the theory says nothing.
\<close>

datatype error = SyntaxError | OutsideModel

subsection \<open>JSON.stringify: quoting a string\<close>

text \<open>
  QuoteJSONString of ECMA-262: the quote, the backslash and the control characters with
  a short form are written with a backslash, the other code units below 0x20 and every
  surrogate that is not half of a pair as \<^verbatim>\<open>uXXXX\<close> after a backslash with lower-case
  digits, everything else as it is.
\<close>

definition is_high_surrogate :: "unit16 \<Rightarrow> bool" where
  "is_high_surrogate c = (0xD800 \<le> c \<and> c \<le> 0xDBFF)"

definition is_low_surrogate :: "unit16 \<Rightarrow> bool" where
  "is_low_surrogate c = (0xDC00 \<le> c \<and> c \<le> 0xDFFF)"

definition hex_digit :: "nat \<Rightarrow> unit16" where
  "hex_digit n = (if n < 10 then 0x30 + of_nat n else 0x61 + of_nat (n - 10))"

definition unicode_escape :: "unit16 \<Rightarrow> jsstring" where
  "unicode_escape c =
     [0x5C, 0x75, hex_digit (unat c div 4096), hex_digit (unat c div 256 mod 16),
      hex_digit (unat c div 16 mod 16), hex_digit (unat c mod 16)]"

definition quote_unit :: "unit16 \<Rightarrow> jsstring" where
  "quote_unit c =
     (if c = 0x08 then [0x5C, 0x62]
      else if c = 0x09 then [0x5C, 0x74]
      else if c = 0x0A then [0x5C, 0x6E]
      else if c = 0x0C then [0x5C, 0x66]
      else if c = 0x0D then [0x5C, 0x72]
      else if c = 0x22 then [0x5C, 0x22]
      else if c = 0x5C then [0x5C, 0x5C]
      else if c < 0x20 \<or> is_high_surrogate c \<or> is_low_surrogate c then unicode_escape c
      else [c])"

fun quote_units :: "jsstring \<Rightarrow> jsstring" where
  "quote_units [] = []"
| "quote_units [c] = quote_unit c"
| "quote_units (c # d # ds) =
     (if is_high_surrogate c \<and> is_low_surrogate d then c # d # quote_units ds
      else quote_unit c @ quote_units (d # ds))"

subsection \<open>JSON.parse\<close>

text \<open>
  The JSON grammar of ECMA-262, section 25.5.1. Every parser takes the text still to read
  and returns the value with the text after it, or None where \<^verbatim>\<open>JSON.parse\<close> raises
  SyntaxError. A string may hold any code unit from 0x20 on, except the quote and the
  backslash, and the escapes of the grammar; the four hexadecimal digits of a
  \<^verbatim>\<open>uXXXX\<close> escape may be of either case.
\<close>

definition hex_value :: "unit16 \<Rightarrow> nat option" where
  "hex_value c =
     (if 0x30 \<le> c \<and> c \<le> 0x39 then Some (unat c - 0x30)
      else if 0x61 \<le> c \<and> c \<le> 0x66 then Some (unat c - 0x61 + 10)
      else if 0x41 \<le> c \<and> c \<le> 0x46 then Some (unat c - 0x41 + 10)
      else None)"

definition unhex4 :: "unit16 \<Rightarrow> unit16 \<Rightarrow> unit16 \<Rightarrow> unit16 \<Rightarrow> unit16 option" where
  "unhex4 a b c d =
     (case (hex_value a, hex_value b, hex_value c, hex_value d) of
        (Some h3, Some h2, Some h1, Some h0) \<Rightarrow> Some (of_nat (h3 * 4096 + h2 * 256 + h1 * 16 + h0))
      | _ \<Rightarrow> None)"

definition unescape :: "unit16 \<Rightarrow> unit16 option" where
  "unescape e =
     (if e = 0x22 then Some 0x22
      else if e = 0x2F then Some 0x2F
      else if e = 0x5C then Some 0x5C
      else if e = 0x62 then Some 0x08
      else if e = 0x66 then Some 0x0C
      else if e = 0x6E then Some 0x0A
      else if e = 0x72 then Some 0x0D
      else if e = 0x74 then Some 0x09
      else None)"

fun parse_string_chars :: "jsstring \<Rightarrow> (jsstring \<times> jsstring) option" where
  "parse_string_chars [] = None"
| "parse_string_chars (c # cs) =
     (if c = 0x22 then Some ([], cs)
      else if c = 0x5C then
        (case cs of
           [] \<Rightarrow> None
         | e # es \<Rightarrow>
             if e = 0x75 then
               (case es of
                  h3 # h2 # h1 # h0 # r \<Rightarrow>
                    (case unhex4 h3 h2 h1 h0 of
                       None \<Rightarrow> None
                     | Some u \<Rightarrow>
                         (case parse_string_chars r of
                            None \<Rightarrow> None
                          | Some (x, r') \<Rightarrow> Some (u # x, r')))
                | _ \<Rightarrow> None)
             else
               (case unescape e of
                  None \<Rightarrow> None
                | Some u \<Rightarrow>
                    (case parse_string_chars es of
                       None \<Rightarrow> None
                     | Some (x, r') \<Rightarrow> Some (u # x, r'))))
      else if c < 0x20 then None
      else
        (case parse_string_chars cs of
           None \<Rightarrow> None
         | Some (x, r') \<Rightarrow> Some (c # x, r')))"

text \<open>
  White space between tokens is tab, line feed, carriage return and space. A number is
  an optional minus, an integer part without a leading zero, an optional fraction and an
  optional exponent.
\<close>

definition is_ws :: "unit16 \<Rightarrow> bool" where
  "is_ws c = (c = 0x09 \<or> c = 0x0A \<or> c = 0x0D \<or> c = 0x20)"

definition skip_ws :: "jsstring \<Rightarrow> jsstring" where
  "skip_ws s = dropWhile is_ws s"

definition is_digit :: "unit16 \<Rightarrow> bool" where
  "is_digit c = (0x30 \<le> c \<and> c \<le> 0x39)"

definition parse_fraction :: "jsstring \<Rightarrow> (jsstring \<times> jsstring) option" where
  "parse_fraction s =
     (case s of
        [] \<Rightarrow> Some ([], [])
      | c # cs \<Rightarrow>
          if c = 0x2E then
            (if takeWhile is_digit cs = [] then None
             else Some (c # takeWhile is_digit cs, dropWhile is_digit cs))
          else Some ([], s))"

definition parse_exponent :: "jsstring \<Rightarrow> (jsstring \<times> jsstring) option" where
  "parse_exponent s =
     (case s of
        [] \<Rightarrow> Some ([], [])
      | c # cs \<Rightarrow>
          if c = 0x65 \<or> c = 0x45 then
            (let (sign, ds) =
               (case cs of
                  [] \<Rightarrow> ([], [])
                | d # r \<Rightarrow> if d = 0x2B \<or> d = 0x2D then ([d], r) else ([], cs))
             in if takeWhile is_digit ds = [] then None
                else Some (c # sign @ takeWhile is_digit ds, dropWhile is_digit ds))
          else Some ([], s))"

definition parse_number :: "jsstring \<Rightarrow> (jsstring \<times> jsstring) option" where
  "parse_number s =
     (let (sign, s1) = (case s of [] \<Rightarrow> ([], []) | c # cs \<Rightarrow> if c = 0x2D then ([c], cs) else ([], s))
      in case s1 of
           [] \<Rightarrow> None
         | c # cs \<Rightarrow>
             if \<not> is_digit c then None
             else
               (let (ip, s2) =
                  (if c = 0x30 then ([c], cs)
                   else (c # takeWhile is_digit cs, dropWhile is_digit cs))
                in case parse_fraction s2 of
                     None \<Rightarrow> None
                   | Some (fp, s3) \<Rightarrow>
                       (case parse_exponent s3 of
                          None \<Rightarrow> None
                        | Some (ep, s4) \<Rightarrow> Some (sign @ ip @ fp @ ep, s4))))"

text \<open>
  A member whose key is already there replaces the value and keeps the place
  (CreateDataProperty); a new key goes to the end.
\<close>

fun obj_set :: "jsstring \<Rightarrow> json \<Rightarrow> (jsstring \<times> json) list \<Rightarrow> (jsstring \<times> json) list" where
  "obj_set k v [] = [(k, v)]"
| "obj_set k v (p # ps) = (if fst p = k then (k, v) # ps else p # obj_set k v ps)"

definition make_object :: "(jsstring \<times> json) list \<Rightarrow> (jsstring \<times> json) list" where
  "make_object ms = foldl (\<lambda>obj (k, v). obj_set k v obj) [] ms"

text \<open>
  The three mutually recursive parsers: a value, the elements of an array after its
  opening bracket, the members of an object after its opening brace. The tests
  \<^verbatim>\<open>length cs < length s\<close> are there for the termination proof only: lemmas
  \<^verbatim>\<open>parse_elements_unguarded\<close> and \<^verbatim>\<open>parse_members_unguarded\<close> show that they never fail.
\<close>

function parse_value :: "jsstring \<Rightarrow> (json \<times> jsstring) option"
  and parse_elements :: "jsstring \<Rightarrow> (json list \<times> jsstring) option"
  and parse_members :: "jsstring \<Rightarrow> ((jsstring \<times> json) list \<times> jsstring) option"
where
  "parse_value s =
     (case skip_ws s of
        [] \<Rightarrow> None
      | c # cs \<Rightarrow>
          if c = 0x5B then
            (case skip_ws cs of
               [] \<Rightarrow> None
             | d # ds \<Rightarrow>
                 if d = 0x5D then Some (JArr [], ds)
                 else (case parse_elements (d # ds) of
                         None \<Rightarrow> None
                       | Some (vs, r) \<Rightarrow> Some (JArr vs, r)))
          else if c = 0x7B then
            (case skip_ws cs of
               [] \<Rightarrow> None
             | d # ds \<Rightarrow>
                 if d = 0x7D then Some (JObj [], ds)
                 else (case parse_members (d # ds) of
                         None \<Rightarrow> None
                       | Some (ms, r) \<Rightarrow> Some (JObj (make_object ms), r)))
          else if c = 0x22 then
            (case parse_string_chars cs of
               None \<Rightarrow> None
             | Some (x, r) \<Rightarrow> Some (JStr x, r))
          else if take 4 (c # cs) = str ''true'' then Some (JBool True, drop 4 (c # cs))
          else if take 5 (c # cs) = str ''false'' then Some (JBool False, drop 5 (c # cs))
          else if take 4 (c # cs) = str ''null'' then Some (JNull, drop 4 (c # cs))
          else (case parse_number (c # cs) of
                  None \<Rightarrow> None
                | Some (n, r) \<Rightarrow> Some (JNum n, r)))"
| "parse_elements s =
     (case parse_value s of
        None \<Rightarrow> None
      | Some (v, r) \<Rightarrow>
          (case skip_ws r of
             [] \<Rightarrow> None
           | c # cs \<Rightarrow>
               if c = 0x5D then Some ([v], cs)
               else if c = 0x2C \<and> length cs < length s then
                 (case parse_elements cs of
                    None \<Rightarrow> None
                  | Some (vs, r') \<Rightarrow> Some (v # vs, r'))
               else None))"
| "parse_members s =
     (case skip_ws s of
        [] \<Rightarrow> None
      | c # cs \<Rightarrow>
          if c \<noteq> 0x22 then None
          else
            (case parse_string_chars cs of
               None \<Rightarrow> None
             | Some (k, r) \<Rightarrow>
                 (case skip_ws r of
                    [] \<Rightarrow> None
                  | c1 # r1 \<Rightarrow>
                      if c1 = 0x3A \<and> length r1 < length s then
                        (case parse_value r1 of
                           None \<Rightarrow> None
                         | Some (v, r2) \<Rightarrow>
                             (case skip_ws r2 of
                                [] \<Rightarrow> None
                              | c2 # r3 \<Rightarrow>
                                  if c2 = 0x7D then Some ([(k, v)], r3)
                                  else if c2 = 0x2C \<and> length r3 < length s then
                                    (case parse_members r3 of
                                       None \<Rightarrow> None
                                     | Some (ms, r4) \<Rightarrow> Some ((k, v) # ms, r4))
                                  else None))
                      else None)))"
  by pat_completeness auto
termination
proof (relation "measure (\<lambda>x. case x of
                   Inl s \<Rightarrow> 2 * length s
                 | Inr (Inl s) \<Rightarrow> 2 * length s + 1
                 | Inr (Inr s) \<Rightarrow> 2 * length s + 1)")
  show "wf (measure (\<lambda>x. case x of
                   Inl s \<Rightarrow> 2 * length s
                 | Inr (Inl s) \<Rightarrow> 2 * length s + 1
                 | Inr (Inr s) \<Rightarrow> 2 * length s + 1))"
    by simp
next
  fix s :: jsstring and c cs d ds
  assume a: "skip_ws s = c # cs" "skip_ws cs = d # ds"
  have "length (skip_ws s) \<le> length s" "length (skip_ws cs) \<le> length cs"
    by (simp_all add: skip_ws_def length_dropWhile_le)
  with a have "length (d # ds) < length s" by simp
  then show "(Inr (Inl (d # ds)), Inl s) \<in> measure (\<lambda>x. case x of
                   Inl s \<Rightarrow> 2 * length s
                 | Inr (Inl s) \<Rightarrow> 2 * length s + 1
                 | Inr (Inr s) \<Rightarrow> 2 * length s + 1)"
    by simp
  from \<open>length (d # ds) < length s\<close>
  show "(Inr (Inr (d # ds)), Inl s) \<in> measure (\<lambda>x. case x of
                   Inl s \<Rightarrow> 2 * length s
                 | Inr (Inl s) \<Rightarrow> 2 * length s + 1
                 | Inr (Inr s) \<Rightarrow> 2 * length s + 1)"
    by simp
qed simp_all

text \<open>
  \<^verbatim>\<open>JSON.parse(text)\<close>: one value, white space around it, and nothing else.
\<close>

definition JSON_parse :: "jsstring \<Rightarrow> error + json" where
  "JSON_parse text =
     (case parse_value text of
        None \<Rightarrow> Inl SyntaxError
      | Some (v, r) \<Rightarrow> if skip_ws r = [] then Inr v else Inl SyntaxError)"

subsection \<open>The stored values the embedding covers\<close>

text \<open>
  The script stores objects with the members name, date, priority (strings) and
  completed (a boolean), and reads back whatever the storage holds. The embedding covers
  an array of items, an item being an object whose members are strings, booleans or
  null, in any number and order; a member that is missing is JavaScript's
  \<^verbatim>\<open>undefined\<close>, which \<^verbatim>\<open>map_of\<close> gives as None. Left outside are
  \<^item> a stored value that is not an array, an element that is not an object, and a
    member that is a number, an array or an object: what the script does with them hangs
    on JavaScript's coercions of arbitrary values;
  \<^item> an item whose date is a boolean: \<^verbatim>\<open>formatTaskDate\<close> calls \<^verbatim>\<open>split\<close> on a date
    that is truthy;
  \<^item> an item with a key made of digits only: JavaScript lists the keys that are array
    indices first, whatever the order in which they were created.
  Everything the script itself writes is inside (lemmas \<^verbatim>\<open>wf_newItem\<close>, \<^verbatim>\<open>wf_toggle\<close>,
  \<^verbatim>\<open>load_save\<close>).
\<close>

datatype prim = Null | Bool bool | Str jsstring

type_synonym item = "(jsstring \<times> prim) list"

definition decode_prim :: "json \<Rightarrow> prim option" where
  "decode_prim v =
     (case v of
        JNull \<Rightarrow> Some Null
      | JBool b \<Rightarrow> Some (Bool b)
      | JStr x \<Rightarrow> Some (Str x)
      | _ \<Rightarrow> None)"

fun decode_members :: "(jsstring \<times> json) list \<Rightarrow> item option" where
  "decode_members [] = Some []"
| "decode_members ((k, v) # ms) =
     (case decode_prim v of
        None \<Rightarrow> None
      | Some p \<Rightarrow>
          (case decode_members ms of
             None \<Rightarrow> None
           | Some it \<Rightarrow> Some ((k, p) # it)))"

definition date_ok :: "item \<Rightarrow> bool" where
  "date_ok it = (case map_of it (str ''date'') of Some (Bool b) \<Rightarrow> False | _ \<Rightarrow> True)"

definition index_like :: "jsstring \<Rightarrow> bool" where
  "index_like k = (k \<noteq> [] \<and> list_all is_digit k)"

definition in_model :: "item \<Rightarrow> bool" where
  "in_model it = (date_ok it \<and> \<not> list_ex index_like (map fst it))"

definition wf_item :: "item \<Rightarrow> bool" where
  "wf_item it = (distinct (map fst it) \<and> in_model it)"

definition decode_item :: "json \<Rightarrow> item option" where
  "decode_item v =
     (case v of
        JObj ms \<Rightarrow>
          (case decode_members ms of
             None \<Rightarrow> None
           | Some it \<Rightarrow> if in_model it then Some it else None)
      | _ \<Rightarrow> None)"

fun decode_items :: "json list \<Rightarrow> item list option" where
  "decode_items [] = Some []"
| "decode_items (v # vs) =
     (case decode_item v of
        None \<Rightarrow> None
      | Some it \<Rightarrow>
          (case decode_items vs of
             None \<Rightarrow> None
           | Some its \<Rightarrow> Some (it # its)))"

definition decode_list :: "json \<Rightarrow> item list option" where
  "decode_list v = (case v of JArr vs \<Rightarrow> decode_items vs | _ \<Rightarrow> None)"

text \<open>
  The JSON value of an item list, and \<^verbatim>\<open>JSON.stringify\<close> on it: no white space, the
  members in order, strings quoted as above.
\<close>

definition encode_prim :: "prim \<Rightarrow> json" where
  "encode_prim p = (case p of Null \<Rightarrow> JNull | Bool b \<Rightarrow> JBool b | Str x \<Rightarrow> JStr x)"

definition encode_item :: "item \<Rightarrow> json" where
  "encode_item it = JObj (map (\<lambda>(k, p). (k, encode_prim p)) it)"

definition encode_list :: "item list \<Rightarrow> json" where
  "encode_list its = JArr (map encode_item its)"

fun join_comma :: "jsstring list \<Rightarrow> jsstring" where
  "join_comma [] = []"
| "join_comma [x] = x"
| "join_comma (x # y # ys) = x @ 0x2C # join_comma (y # ys)"

definition quote_string :: "jsstring \<Rightarrow> jsstring" where
  "quote_string x = 0x22 # quote_units x @ [0x22]"

definition stringify_prim :: "prim \<Rightarrow> jsstring" where
  "stringify_prim p =
     (case p of
        Null \<Rightarrow> str ''null''
      | Bool b \<Rightarrow> if b then str ''true'' else str ''false''
      | Str x \<Rightarrow> quote_string x)"

definition stringify_member :: "jsstring \<times> prim \<Rightarrow> jsstring" where
  "stringify_member m = quote_string (fst m) @ 0x3A # stringify_prim (snd m)"

definition stringify_item :: "item \<Rightarrow> jsstring" where
  "stringify_item it = 0x7B # join_comma (map stringify_member it) @ [0x7D]"

definition JSON_stringify :: "item list \<Rightarrow> jsstring" where
  "JSON_stringify its = 0x5B # join_comma (map stringify_item its) @ [0x5D]"

subsection \<open>The page and the platform\<close>

text \<open>
  The state the script reads and writes: the text under the key \<^verbatim>\<open>todoList\<close> (None when
  the key is absent, where \<^verbatim>\<open>getItem\<close> returns null), the values of the three inputs, the
  alerts shown so far, and what the three containers hold. A container holds the rows put
  in it, each an item with its index in the stored array (the \<^verbatim>\<open>data-index\<close> attribute and
  the number shown before the name), or the placeholder for an empty section, or nothing
  (\<^verbatim>\<open>Cleared\<close>, as before the first rendering). The markup of a row is not modelled.
\<close>

datatype container = Cleared | NoTasks | Rows "(item \<times> nat) list"

record world =
  storage :: "jsstring option"
  itemNameInput :: jsstring
  itemDeadlineInput :: jsstring
  itemPrioritySelect :: jsstring
  alerts :: "jsstring list"
  todayTasksContainer :: container
  futureTasksContainer :: container
  completedTasksContainer :: container

text \<open>
  What rendering reads from its surroundings: the clock (\<^verbatim>\<open>new Date()\<close>, in milliseconds
  since 1 January 1970 UTC), the local time zone as a fixed offset from UTC in
  milliseconds (local time is UTC plus \<^verbatim>\<open>tza\<close>; a change of offset such as daylight
  saving time is not modelled), and the platform's reading of the date strings that are
  not of the form YYYY-MM-DD, which ECMA-262 leaves to the implementation (None is NaN).
\<close>

record platform =
  now :: int
  tza :: int
  date_fallback :: "jsstring \<Rightarrow> int option"

subsection \<open>loadTodoList and saveTodoList\<close>

text \<open>
  \<^verbatim>\<open>const todoJson = localStorage.getItem('todoList');\<close>
  \<^verbatim>\<open>return todoJson ? JSON.parse(todoJson) : [];\<close>

  The key absent gives null and the empty string is falsy: both give the empty array.
  There is no \<^verbatim>\<open>try\<close> in the file: a SyntaxError of \<^verbatim>\<open>JSON.parse\<close> leaves the function.
\<close>

definition loadTodoList :: "world \<Rightarrow> error + item list" where
  "loadTodoList w =
     (case storage w of
        None \<Rightarrow> Inr []
      | Some todoJson \<Rightarrow>
          if todoJson = [] then Inr []
          else
            (case JSON_parse todoJson of
               Inl e \<Rightarrow> Inl e
             | Inr v \<Rightarrow>
                 (case decode_list v of
                    None \<Rightarrow> Inl OutsideModel
                  | Some todoList \<Rightarrow> Inr todoList)))"

text \<open>
  \<^verbatim>\<open>localStorage.setItem('todoList', JSON.stringify(todoList));\<close>

  The storage is taken to have room for the text: a quota that \<^verbatim>\<open>setItem\<close> could exceed
  is not modelled.
\<close>

definition saveTodoList :: "item list \<Rightarrow> world \<Rightarrow> world" where
  "saveTodoList todoList w = w\<lparr>storage := Some (JSON_stringify todoList)\<rparr>"

subsection \<open>Dates\<close>

text \<open>
  Time values are milliseconds since 1 January 1970 UTC; None is NaN, the time value of
  an invalid Date. Day numbers are computed as in ECMA-262, section 21.4.1 (months
  counted from 1 here).
\<close>

definition msPerDay :: int where
  "msPerDay = 86400000"

definition DayFromYear :: "int \<Rightarrow> int" where
  "DayFromYear y =
     365 * (y - 1970) + (y - 1969) div 4 - (y - 1901) div 100 + (y - 1601) div 400"

definition InLeapYear :: "int \<Rightarrow> bool" where
  "InLeapYear y = ((y mod 4 = 0 \<and> y mod 100 \<noteq> 0) \<or> y mod 400 = 0)"

definition DaysInMonth :: "int \<Rightarrow> int \<Rightarrow> int" where
  "DaysInMonth y m =
     (if m = 2 then (if InLeapYear y then 29 else 28)
      else if m = 4 \<or> m = 6 \<or> m = 9 \<or> m = 11 then 30
      else 31)"

definition DaysBeforeMonth :: "int \<Rightarrow> int \<Rightarrow> int" where
  "DaysBeforeMonth y m = (\<Sum>k \<leftarrow> [1..<nat m]. DaysInMonth y (int k))"

definition MakeDay :: "int \<Rightarrow> int \<Rightarrow> int \<Rightarrow> int" where
  "MakeDay y m d = DayFromYear y + DaysBeforeMonth y m + (d - 1)"

text \<open>
  \<^verbatim>\<open>Date.parse\<close> on the date-only form YYYY-MM-DD, which the script stores (the value of
  a date input): ECMA-262 reads it as midnight UTC of that day. Any other string,
  and a day the month does not have, is left to \<^verbatim>\<open>date_fallback\<close>.
\<close>

definition digit_value :: "unit16 \<Rightarrow> int" where
  "digit_value c = int (unat c) - 0x30"

definition digits_value :: "jsstring \<Rightarrow> int" where
  "digits_value ds = foldl (\<lambda>n c. 10 * n + digit_value c) 0 ds"

definition iso_date :: "jsstring \<Rightarrow> (int \<times> int \<times> int) option" where
  "iso_date s =
     (if length s = 10 \<and> list_all is_digit (take 4 s) \<and> s ! 4 = 0x2D
         \<and> list_all is_digit (take 2 (drop 5 s)) \<and> s ! 7 = 0x2D
         \<and> list_all is_digit (drop 8 s)
      then
        (let y = digits_value (take 4 s);
             m = digits_value (take 2 (drop 5 s));
             d = digits_value (drop 8 s)
         in if 1 \<le> m \<and> m \<le> 12 \<and> 1 \<le> d \<and> d \<le> DaysInMonth y m then Some (y, m, d) else None)
      else None)"

definition Date_parse :: "platform \<Rightarrow> jsstring \<Rightarrow> int option" where
  "Date_parse P s =
     (case iso_date s of
        Some (y, m, d) \<Rightarrow> Some (MakeDay y m d * msPerDay)
      | None \<Rightarrow> date_fallback P s)"

text \<open>
  \<^verbatim>\<open>new Date(value)\<close> for a member value: undefined gives NaN, null gives 0 and a boolean
  0 or 1 (ToNumber), a string goes through \<^verbatim>\<open>Date.parse\<close>.
\<close>

definition new_Date :: "platform \<Rightarrow> prim option \<Rightarrow> int option" where
  "new_Date P v =
     (case v of
        None \<Rightarrow> None
      | Some Null \<Rightarrow> Some 0
      | Some (Bool b) \<Rightarrow> Some (if b then 1 else 0)
      | Some (Str s) \<Rightarrow> Date_parse P s)"

text \<open>
  \<^verbatim>\<open>date.setHours(0, 0, 0, 0)\<close>: the time value is moved to local time, cut down to the
  start of its day, and moved back to UTC. NaN stays NaN.
\<close>

definition TimeClip :: "int \<Rightarrow> int option" where
  "TimeClip t = (if \<bar>t\<bar> \<le> 8640000000000000 then Some t else None)"

definition setHours0 :: "platform \<Rightarrow> int option \<Rightarrow> int option" where
  "setHours0 P tv =
     (case tv of
        None \<Rightarrow> None
      | Some t \<Rightarrow> TimeClip ((t + tza P) div msPerDay * msPerDay - tza P))"

text \<open>
  Truthiness of a member value, and \<^verbatim>\<open>===\<close> on two time values (NaN equals nothing).
\<close>

definition ToBoolean :: "prim option \<Rightarrow> bool" where
  "ToBoolean v =
     (case v of
        None \<Rightarrow> False
      | Some Null \<Rightarrow> False
      | Some (Bool b) \<Rightarrow> b
      | Some (Str s) \<Rightarrow> s \<noteq> [])"

definition strict_equal :: "int option \<Rightarrow> int option \<Rightarrow> bool" where
  "strict_equal a b = (case (a, b) of (Some x, Some y) \<Rightarrow> x = y | _ \<Rightarrow> False)"

subsection \<open>renderTodoList\<close>

text \<open>
  The body of the \<^verbatim>\<open>forEach\<close> of renderTodoList, for one item:

  \<^verbatim>\<open>const itemDate = item.date ? new Date(item.date) : null;\<close>
  \<^verbatim>\<open>if (itemDate) itemDate.setHours(0, 0, 0, 0);\<close>
  \<^verbatim>\<open>if (item.completed) { completedTasks.push({ item, index }); }\<close>
  \<^verbatim>\<open>else if (itemDate && itemDate.getTime() === today.getTime()) { todayTasks.push({ item, index }); }\<close>
  \<^verbatim>\<open>else { futureTasks.push({ item, index }); }\<close>

  where \<^verbatim>\<open>today\<close> is \<^verbatim>\<open>new Date()\<close> after \<^verbatim>\<open>setHours(0, 0, 0, 0)\<close>, the same for every item
  of one rendering.
\<close>

datatype bucket = Today | Future | Completed

definition classify :: "platform \<Rightarrow> item \<Rightarrow> bucket" where
  "classify P item =
     (let today = setHours0 P (Some (now P));
          itemDate = (if ToBoolean (map_of item (str ''date''))
                      then Some (setHours0 P (new_Date P (map_of item (str ''date''))))
                      else None)
      in if ToBoolean (map_of item (str ''completed'')) then Completed
         else
           (case itemDate of
              Some d \<Rightarrow> if strict_equal d today then Today else Future
            | None \<Rightarrow> Future))"

type_synonym row = "item \<times> nat"

record buckets =
  todayTasks :: "row list"
  futureTasks :: "row list"
  completedTasks :: "row list"

definition push_task :: "platform \<Rightarrow> buckets \<Rightarrow> row \<Rightarrow> buckets" where
  "push_task P b r =
     (case classify P (fst r) of
        Completed \<Rightarrow> b\<lparr>completedTasks := completedTasks b @ [r]\<rparr>
      | Today \<Rightarrow> b\<lparr>todayTasks := todayTasks b @ [r]\<rparr>
      | Future \<Rightarrow> b\<lparr>futureTasks := futureTasks b @ [r]\<rparr>)"

definition forEach_push :: "platform \<Rightarrow> item list \<Rightarrow> buckets" where
  "forEach_push P todoList =
     foldl (push_task P) \<lparr>todayTasks = [], futureTasks = [], completedTasks = []\<rparr>
       (zip todoList [0..<length todoList])"

text \<open>
  The comparators \<^verbatim>\<open>(a, b) => new Date(a.item.date) - new Date(b.item.date)\<close> (today and
  future) and, with a and b exchanged, of the completed tasks. A difference with NaN is
  NaN.
\<close>

definition date_minus :: "platform \<Rightarrow> row \<Rightarrow> row \<Rightarrow> int option" where
  "date_minus P a b =
     (case (new_Date P (map_of (fst a) (str ''date'')), new_Date P (map_of (fst b) (str ''date''))) of
        (Some x, Some y) \<Rightarrow> Some (x - y)
      | _ \<Rightarrow> None)"

text \<open>
  \<^verbatim>\<open>Array.prototype.sort\<close> with a comparator, as an insertion sort that keeps elements
  which compare equal in their order (the sort is stable). SortCompare of ECMA-262 reads
  NaN as +0. ECMA-262 fixes the order only for a consistent comparator, and the
  comparators above are consistent when every date can be read; otherwise the order is
  implementation-defined, and the theorems about order assume readable dates.
\<close>

definition SortCompare :: "('a \<Rightarrow> 'a \<Rightarrow> int option) \<Rightarrow> 'a \<Rightarrow> 'a \<Rightarrow> int" where
  "SortCompare comparefn x y = (case comparefn x y of None \<Rightarrow> 0 | Some v \<Rightarrow> v)"

fun sort_insert :: "('a \<Rightarrow> 'a \<Rightarrow> int option) \<Rightarrow> 'a \<Rightarrow> 'a list \<Rightarrow> 'a list" where
  "sort_insert comparefn x [] = [x]"
| "sort_insert comparefn x (y # ys) =
     (if SortCompare comparefn y x > 0 then x # y # ys else y # sort_insert comparefn x ys)"

definition Array_sort :: "('a \<Rightarrow> 'a \<Rightarrow> int option) \<Rightarrow> 'a list \<Rightarrow> 'a list" where
  "Array_sort comparefn xs = foldl (\<lambda>out x. sort_insert comparefn x out) [] xs"

definition sorted_buckets :: "platform \<Rightarrow> item list \<Rightarrow> buckets" where
  "sorted_buckets P todoList =
     (let b = forEach_push P todoList
      in \<lparr>todayTasks = Array_sort (\<lambda>a b. date_minus P a b) (todayTasks b),
          futureTasks = Array_sort (\<lambda>a b. date_minus P a b) (futureTasks b),
          completedTasks = Array_sort (\<lambda>a b. date_minus P b a) (completedTasks b)\<rparr>)"

text \<open>
  A section with no task shows the placeholder; otherwise one row per task, in the order
  of the sorted bucket. renderTodoList loads first: when that raises, nothing has been
  touched.
\<close>

definition fill :: "row list \<Rightarrow> container" where
  "fill list = (if length list = 0 then NoTasks else Rows list)"

definition renderTodoList :: "platform \<Rightarrow> world \<Rightarrow> error option \<times> world" where
  "renderTodoList P w =
     (case loadTodoList w of
        Inl e \<Rightarrow> (Some e, w)
      | Inr todoList \<Rightarrow>
          (let b = sorted_buckets P todoList
           in (None, w\<lparr>todayTasksContainer := fill (todayTasks b),
                        futureTasksContainer := fill (futureTasks b),
                        completedTasksContainer := fill (completedTasks b)\<rparr>)))"

subsection \<open>addItem, deleteItem, toggleComplete\<close>

text \<open>
  \<^verbatim>\<open>String.prototype.trim\<close> removes the white space and line terminators of ECMA-262 from
  both ends.
\<close>

definition is_space :: "unit16 \<Rightarrow> bool" where
  "is_space c =
     (c = 0x09 \<or> c = 0x0A \<or> c = 0x0B \<or> c = 0x0C \<or> c = 0x0D \<or> c = 0x20 \<or> c = 0xA0
      \<or> c = 0x1680 \<or> (0x2000 \<le> c \<and> c \<le> 0x200A) \<or> c = 0x2028 \<or> c = 0x2029
      \<or> c = 0x202F \<or> c = 0x205F \<or> c = 0x3000 \<or> c = 0xFEFF)"

definition trim :: "jsstring \<Rightarrow> jsstring" where
  "trim s = rev (dropWhile is_space (rev (dropWhile is_space s)))"

text \<open>
  \<^verbatim>\<open>{ name: name, date: date, priority: priority, completed: false }\<close>
\<close>

definition newItem :: "jsstring \<Rightarrow> jsstring \<Rightarrow> jsstring \<Rightarrow> item" where
  "newItem name date priority =
     [(str ''name'', Str name), (str ''date'', Str date),
      (str ''priority'', Str priority), (str ''completed'', Bool False)]"

definition alert_text :: jsstring where
  "alert_text = str ''Please fill in all fields (Item Name, Deadline, and Priority).''"

text \<open>
  \<^verbatim>\<open>const name = itemNameInput.value.trim();\<close>
  \<^verbatim>\<open>if (!name || !date || !priority) { alert(...); return; }\<close>

  then load, push, save, clear the three inputs, render. The result is the exception
  that left the function, if any, and the page afterwards.
\<close>

definition addItem :: "platform \<Rightarrow> world \<Rightarrow> error option \<times> world" where
  "addItem P w =
     (let name = trim (itemNameInput w);
          date = itemDeadlineInput w;
          priority = itemPrioritySelect w
      in if name = [] \<or> date = [] \<or> priority = []
         then (None, w\<lparr>alerts := alerts w @ [alert_text]\<rparr>)
         else
           (case loadTodoList w of
              Inl e \<Rightarrow> (Some e, w)
            | Inr todoList \<Rightarrow>
                renderTodoList P
                  ((saveTodoList (todoList @ [newItem name date priority]) w)
                     \<lparr>itemNameInput := [], itemDeadlineInput := [], itemPrioritySelect := []\<rparr>)))"

text \<open>
  \<^verbatim>\<open>if (index >= 0 && index < todoList.length) { todoList.splice(index, 1); ... }\<close>

  The index is the integer that the click handler parses from the row.
\<close>

definition splice1 :: "nat \<Rightarrow> 'a list \<Rightarrow> 'a list" where
  "splice1 i xs = take i xs @ drop (Suc i) xs"

definition deleteItem :: "platform \<Rightarrow> int \<Rightarrow> world \<Rightarrow> error option \<times> world" where
  "deleteItem P index w =
     (case loadTodoList w of
        Inl e \<Rightarrow> (Some e, w)
      | Inr todoList \<Rightarrow>
          if index \<ge> 0 \<and> index < int (length todoList)
          then renderTodoList P (saveTodoList (splice1 (nat index) todoList) w)
          else (None, w))"

text \<open>
  \<^verbatim>\<open>todoList[index].completed = !todoList[index].completed;\<close>

  An assignment to a member that is there replaces its value in place; otherwise the
  member is added at the end.
\<close>

fun set_member :: "jsstring \<Rightarrow> prim \<Rightarrow> item \<Rightarrow> item" where
  "set_member k v [] = [(k, v)]"
| "set_member k v (m # ms) = (if fst m = k then (k, v) # ms else m # set_member k v ms)"

definition toggle :: "item \<Rightarrow> item" where
  "toggle it = set_member (str ''completed'') (Bool (\<not> ToBoolean (map_of it (str ''completed'')))) it"

definition toggleComplete :: "platform \<Rightarrow> int \<Rightarrow> world \<Rightarrow> error option \<times> world" where
  "toggleComplete P index w =
     (case loadTodoList w of
        Inl e \<Rightarrow> (Some e, w)
      | Inr todoList \<Rightarrow>
          if index \<ge> 0 \<and> index < int (length todoList)
          then renderTodoList P
                 (saveTodoList (todoList[nat index := toggle (todoList ! nat index)]) w)
          else (None, w))"

subsection \<open>Records of the shape the script writes\<close>

text \<open>
  A record with the four members of the object built in addItem, completed being any
  boolean.
\<close>

record task =
  name :: jsstring
  date :: jsstring
  priority :: jsstring
  completed :: bool

definition task_item :: "task \<Rightarrow> item" where
  "task_item t =
     [(str ''name'', Str (name t)), (str ''date'', Str (date t)),
      (str ''priority'', Str (priority t)), (str ''completed'', Bool (completed t))]"

subsection \<open>Notions used in the statements\<close>

text \<open>
  What reading one more code unit adds to the result of the string parser; the rows on
  the page; the order of two rows by date; a date the platform can read, and its time
  value.
\<close>

definition cons_result :: "unit16 \<Rightarrow> (jsstring \<times> jsstring) option \<Rightarrow> (jsstring \<times> jsstring) option" where
  "cons_result u p = (case p of None \<Rightarrow> None | Some (x, r) \<Rightarrow> Some (u # x, r))"

definition rows_of :: "container \<Rightarrow> row list" where
  "rows_of c = (case c of Rows rs \<Rightarrow> rs | _ \<Rightarrow> [])"

definition rendered_rows :: "world \<Rightarrow> row list" where
  "rendered_rows w =
     rows_of (todayTasksContainer w) @ rows_of (futureTasksContainer w)
       @ rows_of (completedTasksContainer w)"

definition not_later :: "platform \<Rightarrow> row \<Rightarrow> row \<Rightarrow> bool" where
  "not_later P a b =
     (case (new_Date P (map_of (fst a) (str ''date'')), new_Date P (map_of (fst b) (str ''date''))) of
        (Some x, Some y) \<Rightarrow> x \<le> y
      | _ \<Rightarrow> False)"

definition dated :: "platform \<Rightarrow> item \<Rightarrow> bool" where
  "dated P it = (new_Date P (map_of it (str ''date'')) \<noteq> None)"

definition date_value :: "platform \<Rightarrow> row \<Rightarrow> int" where
  "date_value P r = (case new_Date P (map_of (fst r) (str ''date'')) of Some t \<Rightarrow> t | None \<Rightarrow> 0)"

subsection \<open>Example pages\<close>

text \<open>
  Concrete pages and platforms for the examples below. \<^verbatim>\<open>bogota\<close> is noon of 10 January
  2024 in a zone five hours behind UTC, \<^verbatim>\<open>utc\<close> the same instant at offset 0,
  \<^verbatim>\<open>new_year\<close> noon of 1 January 2024 at offset 0.
\<close>

definition page :: world where
  "page = \<lparr>storage = None, itemNameInput = [], itemDeadlineInput = [], itemPrioritySelect = [],
           alerts = [], todayTasksContainer = Cleared, futureTasksContainer = Cleared,
           completedTasksContainer = Cleared\<rparr>"

definition bogota :: platform where
  "bogota = \<lparr>now = 1704906000000, tza = - 18000000, date_fallback = (\<lambda>s. None)\<rparr>"

definition utc :: platform where
  "utc = \<lparr>now = 1704906000000, tza = 0, date_fallback = (\<lambda>s. None)\<rparr>"

definition new_year :: platform where
  "new_year = \<lparr>now = 1704110400000, tza = 0, date_fallback = (\<lambda>s. None)\<rparr>"

definition milk :: item where
  "milk = newItem (str ''milk'') (str ''2024-01-10'') (str ''high'')"

definition stored :: "item list \<Rightarrow> world" where
  "stored todoList = saveTodoList todoList page"

definition blank_name :: world where
  "blank_name =
     (stored [milk])\<lparr>itemNameInput := str ''   '', itemDeadlineInput := str ''2024-01-11'',
                      itemPrioritySelect := str ''low''\<rparr>"

definition eggs_form :: world where
  "eggs_form =
     (stored [milk])\<lparr>itemNameInput := str '' eggs '', itemDeadlineInput := str ''2024-01-11'',
                      itemPrioritySelect := str ''low''\<rparr>"

definition open_task :: "string \<Rightarrow> item" where
  "open_task d = newItem (str ''task'') (str d) (str ''low'')"

definition done_task :: "string \<Rightarrow> item" where
  "done_task d = task_item \<lparr>name = str ''task'', date = str d, priority = str ''low'', completed = True\<rparr>"

definition undated :: item where
  "undated = [(str ''name'', Str (str ''call'')), (str ''completed'', Bool False)]"

declare parse_value.simps [simp del] parse_elements.simps [simp del] parse_members.simps [simp del]

section \<open>Lemmas\<close>

subsection \<open>JSON.parse reads back what JSON.stringify writes\<close>

text \<open>
  The escapes of a quoted string are read back unit by unit; a member, an item and a
  list follow by induction on the list. With the keys of every item distinct the object
  built by the parser is the object that was written, so loading after saving gives the
  list that was saved.
\<close>

lemma hex_value_hex_digit_all: "\<forall>n \<in> set [0..<16]. hex_value (hex_digit n) = Some n"
  by (simp add: upt_rec hex_value_def hex_digit_def)

lemma hex_value_hex_digit: "n < 16 \<Longrightarrow> hex_value (hex_digit n) = Some n"
  using hex_value_hex_digit_all by simp

lemma nibbles:
  "n div 4096 * 4096 + n div 256 mod 16 * 256 + n div 16 mod 16 * 16 + n mod 16 = (n::nat)"
proof -
  have a: "n div 16 * 16 + n mod 16 = n" by simp
  have "n div 256 = n div 16 div 16" by (simp add: div_mult2_eq [symmetric])
  then have b: "n div 256 * 16 + n div 16 mod 16 = n div 16" by simp
  have "n div 4096 = n div 256 div 16" by (simp add: div_mult2_eq [symmetric])
  then have c: "n div 4096 * 16 + n div 256 mod 16 = n div 256" by simp
  from a b c show ?thesis by linarith
qed

lemma unhex4_unicode_escape:
  "unhex4 (hex_digit (unat c div 4096)) (hex_digit (unat c div 256 mod 16))
          (hex_digit (unat c div 16 mod 16)) (hex_digit (unat c mod 16)) = Some c"
proof -
  have b: "unat c < 65536" using unsigned_less [of c] by simp
  then have "unat c div 4096 < 16" by simp
  then show ?thesis
    using nibbles [of "unat c"] by (simp add: unhex4_def hex_value_hex_digit)
qed


lemma parse_unicode_escape:
  "parse_string_chars (unicode_escape c @ r) = cons_result c (parse_string_chars r)"
  by (simp add: unicode_escape_def unhex4_unicode_escape cons_result_def)

lemma parse_quote_unit:
  "parse_string_chars (quote_unit c @ r) = cons_result c (parse_string_chars r)"
  unfolding quote_unit_def
  by (auto simp: parse_unicode_escape unescape_def)  (auto simp: cons_result_def)

lemma surrogate_plain:
  "is_high_surrogate c \<or> is_low_surrogate c \<Longrightarrow> \<not> c < 0x20 \<and> c \<noteq> 0x22 \<and> c \<noteq> 0x5C"
  unfolding is_high_surrogate_def is_low_surrogate_def word_le_nat_alt word_less_nat_alt
  by auto

lemma parse_plain:
  "\<not> c < 0x20 \<Longrightarrow> c \<noteq> 0x22 \<Longrightarrow> c \<noteq> 0x5C \<Longrightarrow>
   parse_string_chars (c # r) = cons_result c (parse_string_chars r)"
  by (simp add: cons_result_def)

lemma parse_quote_units:
  "parse_string_chars (quote_units x @ 0x22 # r) = Some (x, r)"
proof (induction x rule: quote_units.induct)
  case 1
  show ?case by simp
next
  case (2 c)
  have "parse_string_chars (quote_unit c @ 0x22 # r) = Some ([c], r)"
    unfolding parse_quote_unit by (simp add: cons_result_def)
  then show ?case by simp
next
  case (3 c d ds)
  show ?case
  proof (cases "is_high_surrogate c \<and> is_low_surrogate d")
    case True
    then have "parse_string_chars (c # d # quote_units ds @ 0x22 # r) =
               cons_result c (cons_result d (parse_string_chars (quote_units ds @ 0x22 # r)))"
      using surrogate_plain [of c] surrogate_plain [of d]
      by (simp add: parse_plain del: parse_string_chars.simps)
    with True 3 show ?thesis by (simp add: cons_result_def del: parse_string_chars.simps)
  next
    case False
    then have "quote_units (c # d # ds) = quote_unit c @ quote_units (d # ds)"
      by auto
    then have "parse_string_chars (quote_units (c # d # ds) @ 0x22 # r) =
               cons_result c (parse_string_chars (quote_units (d # ds) @ 0x22 # r))"
      by (simp add: parse_quote_unit del: parse_string_chars.simps quote_units.simps)
    with False 3 show ?thesis
      by (simp add: cons_result_def del: parse_string_chars.simps quote_units.simps)
  qed
qed


lemma skip_ws_nonspace: "\<not> is_ws c \<Longrightarrow> skip_ws (c # r) = c # r"
  by (simp add: skip_ws_def)

lemma parse_value_string: "parse_value (quote_string x @ r) = Some (JStr x, r)"
  by (subst parse_value.simps)
     (simp add: quote_string_def skip_ws_nonspace is_ws_def parse_quote_units)

lemma parse_value_prim: "parse_value (stringify_prim p @ r) = Some (encode_prim p, r)"
proof (cases p)
  case Null
  then show ?thesis
    by (subst parse_value.simps)
       (simp add: stringify_prim_def encode_prim_def str_def skip_ws_nonspace is_ws_def)
next
  case (Bool b)
  then show ?thesis
    by (subst parse_value.simps)
       (simp add: stringify_prim_def encode_prim_def str_def skip_ws_nonspace is_ws_def)
next
  case (Str x)
  then show ?thesis
    by (simp add: stringify_prim_def encode_prim_def parse_value_string)
qed


lemma parse_members_last:
  "parse_members (stringify_member (k, p) @ 0x7D # r) = Some ([(k, encode_prim p)], r)"
proof -
  have "parse_string_chars (quote_units k @ 0x22 # 0x3A # stringify_prim p @ 0x7D # r)
        = Some (k, 0x3A # stringify_prim p @ 0x7D # r)"
    by (rule parse_quote_units)
  then show ?thesis
    by (subst parse_members.simps)
       (simp add: stringify_member_def quote_string_def skip_ws_nonspace is_ws_def parse_value_prim)
qed

lemma parse_members_more:
  "parse_members (stringify_member (k, p) @ 0x2C # r) =
     (case parse_members r of
        None \<Rightarrow> None
      | Some (ms, r') \<Rightarrow> Some ((k, encode_prim p) # ms, r'))"
proof -
  have "parse_string_chars (quote_units k @ 0x22 # 0x3A # stringify_prim p @ 0x2C # r)
        = Some (k, 0x3A # stringify_prim p @ 0x2C # r)"
    by (rule parse_quote_units)
  then show ?thesis
    by (subst parse_members.simps)
       (simp add: stringify_member_def quote_string_def skip_ws_nonspace is_ws_def parse_value_prim)
qed

lemma parse_members_join:
  "it \<noteq> [] \<Longrightarrow>
   parse_members (join_comma (map stringify_member it) @ 0x7D # r) =
     Some (map (\<lambda>(k, p). (k, encode_prim p)) it, r)"
proof (induction it rule: induct_list012)
  case 1
  then show ?case by simp
next
  case (2 m)
  show ?case using parse_members_last [of "fst m" "snd m" r] by (simp add: case_prod_beta)
next
  case (3 m m' ms)
  have "parse_members (join_comma (map stringify_member (m # m' # ms)) @ 0x7D # r) =
        parse_members (stringify_member (fst m, snd m) @ 0x2C #
                       (join_comma (map stringify_member (m' # ms)) @ 0x7D # r))"
    by simp
  also have "\<dots> = Some (map (\<lambda>(k, p). (k, encode_prim p)) (m # m' # ms), r)"
    unfolding parse_members_more using 3 by (simp add: case_prod_beta)
  finally show ?case .
qed


lemma obj_set_fresh: "k \<notin> fst ` set obj \<Longrightarrow> obj_set k v obj = obj @ [(k, v)]"
  by (induction obj) auto

lemma make_object_distinct_aux:
  "distinct (map fst (obj @ ms)) \<Longrightarrow>
   foldl (\<lambda>obj (k, v). obj_set k v obj) obj ms = obj @ ms"
proof (induction ms arbitrary: obj)
  case Nil
  then show ?case by simp
next
  case (Cons m ms)
  obtain k v where m: "m = (k, v)" by (cases m)
  from Cons.prems m have fresh: "k \<notin> fst ` set obj" by auto
  from Cons.prems m have "distinct (map fst ((obj @ [(k, v)]) @ ms))" by auto
  from Cons.IH [OF this] show ?case
    by (simp add: m obj_set_fresh [OF fresh])
qed

lemma make_object_distinct: "distinct (map fst ms) \<Longrightarrow> make_object ms = ms"
  using make_object_distinct_aux [of "[]" ms] by (simp add: make_object_def)

lemma parse_value_item:
  assumes "distinct (map fst it)"
  shows "parse_value (stringify_item it @ r) = Some (encode_item it, r)"
proof (cases "it = []")
  case True
  then show ?thesis
    by (subst parse_value.simps)
       (simp add: stringify_item_def encode_item_def skip_ws_nonspace is_ws_def)
next
  case False
  obtain m ms where it: "it = m # ms" using False by (cases it) auto
  obtain c cs where q: "join_comma (map stringify_member it) = 0x22 # cs"
    unfolding it by (cases ms) (simp_all add: stringify_member_def quote_string_def)
  have d: "distinct (map fst (map (\<lambda>(k, p). (k, encode_prim p)) it))"
    using assms by (simp add: comp_def case_prod_beta)
  have "parse_members (0x22 # cs @ 0x7D # r) = Some (map (\<lambda>(k, p). (k, encode_prim p)) it, r)"
    using parse_members_join [OF False, of r] q by simp
  then show ?thesis
    by (subst parse_value.simps)
       (simp add: stringify_item_def encode_item_def skip_ws_nonspace is_ws_def q
                  make_object_distinct [OF d])
qed

lemma parse_elements_last:
  "distinct (map fst it) \<Longrightarrow>
   parse_elements (stringify_item it @ 0x5D # r) = Some ([encode_item it], r)"
  by (subst parse_elements.simps)
     (simp add: parse_value_item skip_ws_nonspace is_ws_def)

lemma parse_elements_more:
  "distinct (map fst it) \<Longrightarrow>
   parse_elements (stringify_item it @ 0x2C # r) =
     (case parse_elements r of
        None \<Rightarrow> None
      | Some (vs, r') \<Rightarrow> Some (encode_item it # vs, r'))"
  by (subst parse_elements.simps)
     (simp add: parse_value_item skip_ws_nonspace is_ws_def)

lemma parse_elements_join:
  "its \<noteq> [] \<Longrightarrow> list_all (\<lambda>it. distinct (map fst it)) its \<Longrightarrow>
   parse_elements (join_comma (map stringify_item its) @ 0x5D # r) =
     Some (map encode_item its, r)"
proof (induction its rule: induct_list012)
  case 1
  then show ?case by simp
next
  case (2 it)
  then show ?case by (simp add: parse_elements_last)
next
  case (3 it it' its)
  then show ?case by (simp add: parse_elements_more)
qed

lemma parse_value_list:
  assumes "list_all (\<lambda>it. distinct (map fst it)) its"
  shows "parse_value (JSON_stringify its @ r) = Some (encode_list its, r)"
proof (cases "its = []")
  case True
  then show ?thesis
    by (subst parse_value.simps)
       (simp add: JSON_stringify_def encode_list_def skip_ws_nonspace is_ws_def)
next
  case False
  obtain it its' where its: "its = it # its'" using False by (cases its) auto
  obtain cs where q: "join_comma (map stringify_item its) = 0x7B # cs"
    unfolding its by (cases its') (simp_all add: stringify_item_def)
  have "parse_elements (0x7B # cs @ 0x5D # r) = Some (map encode_item its, r)"
    using parse_elements_join [OF False assms, of r] q by simp
  then show ?thesis
    by (subst parse_value.simps)
       (simp add: JSON_stringify_def encode_list_def skip_ws_nonspace is_ws_def q)
qed

lemma JSON_parse_stringify:
  "list_all (\<lambda>it. distinct (map fst it)) its \<Longrightarrow>
   JSON_parse (JSON_stringify its) = Inr (encode_list its)"
  using parse_value_list [of its "[]"] by (simp add: JSON_parse_def skip_ws_def)

lemma decode_encode_prim: "decode_prim (encode_prim p) = Some p"
  by (cases p) (simp_all add: decode_prim_def encode_prim_def)

lemma decode_members_encode:
  "decode_members (map (\<lambda>(k, p). (k, encode_prim p)) it) = Some it"
  by (induction it) (auto simp: decode_encode_prim)

lemma decode_encode_item: "in_model it \<Longrightarrow> decode_item (encode_item it) = Some it"
  by (simp add: decode_item_def encode_item_def decode_members_encode)

lemma decode_encode_items: "list_all in_model its \<Longrightarrow> decode_items (map encode_item its) = Some its"
  by (induction its) (auto simp: decode_encode_item)

lemma decode_encode_list: "list_all in_model its \<Longrightarrow> decode_list (encode_list its) = Some its"
  by (simp add: decode_list_def encode_list_def decode_encode_items)


lemma JSON_stringify_nonempty: "JSON_stringify its \<noteq> []"
  by (simp add: JSON_stringify_def)

lemma load_save:
  "list_all wf_item its \<Longrightarrow> loadTodoList (saveTodoList its w) = Inr its"
proof -
  assume a: "list_all wf_item its"
  then have d: "list_all (\<lambda>it. distinct (map fst it)) its" and o: "list_all in_model its"
    by (simp_all add: wf_item_def list_all_iff)
  show ?thesis
    by (simp add: loadTodoList_def saveTodoList_def JSON_stringify_nonempty
                  JSON_parse_stringify [OF d] decode_encode_list [OF o])
qed

subsection \<open>The parsers consume their input\<close>

text \<open>
  Whatever a parser returns, the text left is shorter than the text given. The length
  tests in the definitions of the parsers are therefore always passed.
\<close>

lemma parse_string_chars_shorter:
  "parse_string_chars s = Some (x, r) \<Longrightarrow> length r < length s"
proof (induction "length s" arbitrary: s x r rule: less_induct)
  case less
  have IH: "parse_string_chars s' = Some (x', r') \<Longrightarrow> length s' < length s \<Longrightarrow>
            length r' < length s'" for s' x' r'
    using less.hyps by blast
  show ?case
  proof (cases s)
    case Nil
    with less.prems show ?thesis by simp
  next
    case (Cons c cs)
    with less.prems show ?thesis
      by (auto split: if_splits list.splits option.splits dest!: IH)
  qed
qed

lemma length_skip_ws: "length (skip_ws s) \<le> length s"
  by (simp add: skip_ws_def length_dropWhile_le)

lemma skip_ws_Cons_shorter: "skip_ws s = c # cs \<Longrightarrow> length cs < length s"
  using length_skip_ws [of s] by simp

lemma length_dropWhile_diff:
  "length (dropWhile f xs) = length xs - length (takeWhile f xs)"
  by (metis add_diff_cancel_left' length_append takeWhile_dropWhile_id)

lemma parse_fraction_shorter: "parse_fraction s = Some (x, r) \<Longrightarrow> length r \<le> length s"
  by (auto simp: parse_fraction_def length_dropWhile_diff split: list.splits if_splits)

lemma parse_exponent_shorter: "parse_exponent s = Some (x, r) \<Longrightarrow> length r \<le> length s"
  by (auto simp: parse_exponent_def Let_def length_dropWhile_diff
           split: list.splits if_splits prod.splits)

lemma parse_number_shorter: "parse_number s = Some (x, r) \<Longrightarrow> length r < length s"
  unfolding parse_number_def Let_def
  by (auto simp: length_dropWhile_diff
           split: list.splits if_splits prod.splits option.splits
           dest!: parse_fraction_shorter parse_exponent_shorter)


lemma parse_shorter:
  "(\<forall>v r. parse_value s = Some (v, r) \<longrightarrow> length r < length s)
   \<and> (\<forall>vs r. parse_elements s = Some (vs, r) \<longrightarrow> length r < length s)
   \<and> (\<forall>ms r. parse_members s = Some (ms, r) \<longrightarrow> length r < length s)"
proof (induction "length s" arbitrary: s rule: less_induct)
  case less
  have E: "parse_elements s' = Some (vs, r) \<Longrightarrow> length s' < length s \<Longrightarrow> length r < length s'"
    for s' vs r using less.hyps by blast
  have M: "parse_members s' = Some (ms, r) \<Longrightarrow> length s' < length s \<Longrightarrow> length r < length s'"
    for s' ms r using less.hyps by blast
  have V': "parse_value s' = Some (v, r) \<Longrightarrow> length s' < length s \<Longrightarrow> length r < length s'"
    for s' v r using less.hyps by blast
  have V: "length r < length s" if "parse_value s = Some (v, r)" for v r
  proof (cases "skip_ws s")
    case Nil
    with that show ?thesis by (subst (asm) parse_value.simps) simp
  next
    case (Cons c cs)
    have cs: "length cs < length s" by (rule skip_ws_Cons_shorter [OF Cons])
    have dr: "length (drop n cs) \<le> length cs" for n by simp
    from that Cons cs show ?thesis
      by (subst (asm) parse_value.simps)
         (auto split: if_splits list.splits option.splits
               dest!: skip_ws_Cons_shorter parse_string_chars_shorter parse_number_shorter E M)
  qed
  have W: "length cs < length r" if "skip_ws r = c # cs" for r :: jsstring and c cs
    by (rule skip_ws_Cons_shorter [OF that])
  have "length r < length s" if "parse_elements s = Some (vs, r)" for vs r
    using that
    by (subst (asm) parse_elements.simps)
       (auto split: if_splits list.splits option.splits dest!: V W E)
  moreover have "length r < length s" if "parse_members s = Some (ms, r)" for ms r
    using that
    by (subst (asm) parse_members.simps)
       (auto split: if_splits list.splits option.splits
             dest!: W parse_string_chars_shorter V' M)
  ultimately show ?case using V by blast
qed

lemma parse_value_shorter: "parse_value s = Some (v, r) \<Longrightarrow> length r < length s"
  using parse_shorter by blast

lemma parse_elements_unguarded:
  "parse_elements s =
     (case parse_value s of
        None \<Rightarrow> None
      | Some (v, r) \<Rightarrow>
          (case skip_ws r of
             [] \<Rightarrow> None
           | c # cs \<Rightarrow>
               if c = 0x5D then Some ([v], cs)
               else if c = 0x2C then
                 (case parse_elements cs of
                    None \<Rightarrow> None
                  | Some (vs, r') \<Rightarrow> Some (v # vs, r'))
               else None))"
  by (subst parse_elements.simps)
     (auto split: option.splits list.splits dest!: parse_value_shorter skip_ws_Cons_shorter)

lemma parse_members_unguarded:
  "parse_members s =
     (case skip_ws s of
        [] \<Rightarrow> None
      | c # cs \<Rightarrow>
          if c \<noteq> 0x22 then None
          else
            (case parse_string_chars cs of
               None \<Rightarrow> None
             | Some (k, r) \<Rightarrow>
                 (case skip_ws r of
                    [] \<Rightarrow> None
                  | c1 # r1 \<Rightarrow>
                      if c1 = 0x3A then
                        (case parse_value r1 of
                           None \<Rightarrow> None
                         | Some (v, r2) \<Rightarrow>
                             (case skip_ws r2 of
                                [] \<Rightarrow> None
                              | c2 # r3 \<Rightarrow>
                                  if c2 = 0x7D then Some ([(k, v)], r3)
                                  else if c2 = 0x2C then
                                    (case parse_members r3 of
                                       None \<Rightarrow> None
                                     | Some (ms, r4) \<Rightarrow> Some ((k, v) # ms, r4))
                                  else None))
                      else None)))"
  by (subst parse_members.simps)
     (auto split: option.splits list.splits
           dest!: parse_value_shorter skip_ws_Cons_shorter parse_string_chars_shorter)

subsection \<open>What loadTodoList returns\<close>

text \<open>
  The objects built by the parser have distinct keys, so every list that loadTodoList
  returns can be saved and loaded again unchanged, also after an item was added or
  toggled.
\<close>

lemma distinct_obj_set: "distinct (map fst obj) \<Longrightarrow> distinct (map fst (obj_set k v obj))"
proof (induction obj)
  case Nil
  show ?case by simp
next
  case (Cons p ps)
  have "fst ` set (obj_set k v ps) \<subseteq> insert k (fst ` set ps)" for ps :: "(jsstring \<times> json) list"
    by (induction ps) auto
  with Cons show ?case by auto
qed

lemma distinct_foldl_obj_set:
  "distinct (map fst obj) \<Longrightarrow>
   distinct (map fst (foldl (\<lambda>obj (k, v). obj_set k v obj) obj ms))"
  by (induction ms arbitrary: obj) (auto simp: distinct_obj_set)

lemma distinct_make_object: "distinct (map fst (make_object ms))"
  by (simp add: make_object_def distinct_foldl_obj_set)

definition distinct_keys :: "json \<Rightarrow> bool" where
  "distinct_keys v = (case v of JObj ms \<Rightarrow> distinct (map fst ms) | _ \<Rightarrow> True)"

lemma parse_value_distinct_keys: "parse_value s = Some (v, r) \<Longrightarrow> distinct_keys v"
  by (subst (asm) parse_value.simps)
     (auto simp: distinct_keys_def distinct_make_object split: list.splits if_splits option.splits)

lemma parse_elements_distinct_keys:
  "parse_elements s = Some (vs, r) \<Longrightarrow> list_all distinct_keys vs"
proof (induction "length s" arbitrary: s vs r rule: less_induct)
  case less
  from less.prems show ?case
    by (subst (asm) parse_elements.simps)
       (auto simp: parse_value_distinct_keys split: list.splits if_splits option.splits
             dest!: less.hyps)
qed


lemma parse_value_array_distinct_keys:
  "parse_value s = Some (JArr vs, r) \<Longrightarrow> list_all distinct_keys vs"
  by (subst (asm) parse_value.simps)
     (auto split: list.splits if_splits option.splits dest: parse_elements_distinct_keys)

lemma decode_members_keys: "decode_members ms = Some it \<Longrightarrow> map fst it = map fst ms"
  by (induction ms arbitrary: it) (auto split: option.splits)

lemma decode_item_wf: "decode_item v = Some it \<Longrightarrow> distinct_keys v \<Longrightarrow> wf_item it"
  by (auto simp: decode_item_def distinct_keys_def wf_item_def decode_members_keys
           split: json.splits option.splits if_splits)

lemma decode_items_wf:
  "decode_items vs = Some its \<Longrightarrow> list_all distinct_keys vs \<Longrightarrow> list_all wf_item its"
  by (induction vs arbitrary: its) (auto split: option.splits dest: decode_item_wf)

lemma loaded_wf: "loadTodoList w = Inr todoList \<Longrightarrow> list_all wf_item todoList"
  by (auto simp: loadTodoList_def JSON_parse_def decode_list_def
           split: option.splits if_splits sum.splits json.splits
           dest!: parse_value_array_distinct_keys decode_items_wf)

lemma loadTodoList_storage: "storage w' = storage w \<Longrightarrow> loadTodoList w' = loadTodoList w"
  by (simp add: loadTodoList_def)

lemma renderTodoList_storage: "storage (snd (renderTodoList P w)) = storage w"
  by (simp add: renderTodoList_def Let_def split: sum.splits)

lemma load_after_render: "loadTodoList (snd (renderTodoList P w)) = loadTodoList w"
  by (rule loadTodoList_storage) (rule renderTodoList_storage)

lemma render_ok: "loadTodoList w = Inr todoList \<Longrightarrow> fst (renderTodoList P w) = None"
  by (simp add: renderTodoList_def Let_def)

lemma wf_newItem: "wf_item (newItem n d p)"
  by (simp add: wf_item_def in_model_def index_like_def is_digit_def newItem_def date_ok_def str_def)

lemma wf_task_item: "wf_item (task_item t)"
  by (simp add: wf_item_def in_model_def index_like_def is_digit_def task_item_def date_ok_def str_def)

lemma set_member_keys:
  "fst ` set (set_member k v it) = insert k (fst ` set it)"
  by (induction it) auto

lemma distinct_set_member: "distinct (map fst it) \<Longrightarrow> distinct (map fst (set_member k v it))"
  by (induction it) (auto simp: set_member_keys)

lemma map_of_set_member: "map_of (set_member k v it) = (map_of it)(k \<mapsto> v)"
  by (induction it) (auto simp: fun_eq_iff)

lemma wf_toggle: "wf_item it \<Longrightarrow> wf_item (toggle it)"
  by (simp add: wf_item_def in_model_def toggle_def distinct_set_member date_ok_def
                map_of_set_member list_ex_iff set_member_keys)
     (simp add: index_like_def is_digit_def str_def)

subsection \<open>The operations on a stored list\<close>

text \<open>
  Rendering leaves the storage and the inputs alone. On a page whose storage loads as xs,
  each operation with valid arguments stores the changed list, and loading gives it back.
\<close>

lemma load_after_save_render:
  "list_all wf_item its \<Longrightarrow> storage w' = Some (JSON_stringify its) \<Longrightarrow>
   loadTodoList (snd (renderTodoList P w')) = Inr its \<and> fst (renderTodoList P w') = None"
proof -
  assume wf: "list_all wf_item its" and s: "storage w' = Some (JSON_stringify its)"
  have "loadTodoList w' = loadTodoList (saveTodoList its w')"
    by (rule loadTodoList_storage [symmetric]) (simp add: saveTodoList_def s)
  then have l: "loadTodoList w' = Inr its" by (simp add: load_save [OF wf])
  then show ?thesis by (simp add: load_after_render render_ok)
qed

lemma renderTodoList_inputs:
  "itemNameInput (snd (renderTodoList P w)) = itemNameInput w"
  "itemDeadlineInput (snd (renderTodoList P w)) = itemDeadlineInput w"
  "itemPrioritySelect (snd (renderTodoList P w)) = itemPrioritySelect w"
  "alerts (snd (renderTodoList P w)) = alerts w"
  by (simp_all add: renderTodoList_def Let_def split: sum.splits)

lemma wf_splice1: "list_all wf_item xs \<Longrightarrow> list_all wf_item (splice1 i xs)"
  by (auto simp: splice1_def list_all_iff dest: in_set_takeD in_set_dropD)

lemma wf_list_update: "list_all wf_item xs \<Longrightarrow> wf_item x \<Longrightarrow> list_all wf_item (xs[i := x])"
  by (auto simp: list_all_iff dest!: set_update_subset_insert [THEN subsetD])

lemma deleteItem_valid:
  assumes "loadTodoList w = Inr xs" "0 \<le> i" "i < int (length xs)"
  shows "loadTodoList (snd (deleteItem P i w)) = Inr (splice1 (nat i) xs)"
    and "fst (deleteItem P i w) = None"
  using assms load_after_save_render [OF wf_splice1 [OF loaded_wf [OF assms(1)]], of "saveTodoList (splice1 (nat i) xs) w" "nat i" P]
  by (simp_all add: deleteItem_def saveTodoList_def)

lemma toggleComplete_valid:
  assumes "loadTodoList w = Inr xs" "0 \<le> i" "i < int (length xs)"
  shows "loadTodoList (snd (toggleComplete P i w)) = Inr (xs[nat i := toggle (xs ! nat i)])"
    and "fst (toggleComplete P i w) = None"
proof -
  have wf: "list_all wf_item xs" by (rule loaded_wf [OF assms(1)])
  with assms have "wf_item (xs ! nat i)" by (simp add: list_all_length)
  then have "list_all wf_item (xs[nat i := toggle (xs ! nat i)])"
    by (intro wf_list_update wf wf_toggle)
  from load_after_save_render [OF this, of "saveTodoList (xs[nat i := toggle (xs ! nat i)]) w" P]
  show "loadTodoList (snd (toggleComplete P i w)) = Inr (xs[nat i := toggle (xs ! nat i)])"
    and "fst (toggleComplete P i w) = None"
    using assms by (simp_all add: toggleComplete_def saveTodoList_def)
qed

lemma addItem_valid:
  assumes "loadTodoList w = Inr xs"
    and "trim (itemNameInput w) \<noteq> []" "itemDeadlineInput w \<noteq> []" "itemPrioritySelect w \<noteq> []"
  shows "loadTodoList (snd (addItem P w)) =
           Inr (xs @ [newItem (trim (itemNameInput w)) (itemDeadlineInput w) (itemPrioritySelect w)])"
    and "fst (addItem P w) = None"
    and "itemNameInput (snd (addItem P w)) = []"
    and "itemDeadlineInput (snd (addItem P w)) = []"
    and "itemPrioritySelect (snd (addItem P w)) = []"
    and "alerts (snd (addItem P w)) = alerts w"
proof -
  let ?new = "newItem (trim (itemNameInput w)) (itemDeadlineInput w) (itemPrioritySelect w)"
  let ?w' = "(saveTodoList (xs @ [?new]) w)
               \<lparr>itemNameInput := [], itemDeadlineInput := [], itemPrioritySelect := []\<rparr>"
  have wf: "list_all wf_item (xs @ [?new])"
    using loaded_wf [OF assms(1)] by (simp add: wf_newItem)
  have a: "addItem P w = renderTodoList P ?w'"
    using assms by (simp add: addItem_def Let_def)
  have s: "storage ?w' = Some (JSON_stringify (xs @ [?new]))"
    by (simp add: saveTodoList_def)
  from load_after_save_render [OF wf s, of P]
  show "loadTodoList (snd (addItem P w)) = Inr (xs @ [?new])" and "fst (addItem P w) = None"
    by (simp_all add: a)
  show "itemNameInput (snd (addItem P w)) = []"
    and "itemDeadlineInput (snd (addItem P w)) = []"
    and "itemPrioritySelect (snd (addItem P w)) = []"
    and "alerts (snd (addItem P w)) = alerts w"
    unfolding a by (simp_all add: renderTodoList_inputs saveTodoList_def)
qed

subsection \<open>Categorising and sorting\<close>

text \<open>
  The forEach of renderTodoList filters the indexed list three ways. The sort returns a
  permutation, ordered by the key whose differences the comparator computes.
\<close>

lemma push_task_fields:
  "todayTasks (push_task P b r) = todayTasks b @ (if classify P (fst r) = Today then [r] else [])"
  "futureTasks (push_task P b r) = futureTasks b @ (if classify P (fst r) = Future then [r] else [])"
  "completedTasks (push_task P b r) =
     completedTasks b @ (if classify P (fst r) = Completed then [r] else [])"
  by (cases "classify P (fst r)"; simp add: push_task_def)+

lemma foldl_push_task:
  "todayTasks (foldl (push_task P) b rows) =
     todayTasks b @ filter (\<lambda>r. classify P (fst r) = Today) rows"
  "futureTasks (foldl (push_task P) b rows) =
     futureTasks b @ filter (\<lambda>r. classify P (fst r) = Future) rows"
  "completedTasks (foldl (push_task P) b rows) =
     completedTasks b @ filter (\<lambda>r. classify P (fst r) = Completed) rows"
  by (induction rows arbitrary: b; simp add: push_task_fields)+

lemma forEach_push_filter:
  "todayTasks (forEach_push P todoList) =
     filter (\<lambda>r. classify P (fst r) = Today) (zip todoList [0..<length todoList])"
  "futureTasks (forEach_push P todoList) =
     filter (\<lambda>r. classify P (fst r) = Future) (zip todoList [0..<length todoList])"
  "completedTasks (forEach_push P todoList) =
     filter (\<lambda>r. classify P (fst r) = Completed) (zip todoList [0..<length todoList])"
  by (simp_all add: forEach_push_def foldl_push_task)

lemma mset_sort_insert: "mset (sort_insert f x ys) = add_mset x (mset ys)"
  by (induction ys) simp_all

lemma mset_foldl_sort_insert:
  "mset (foldl (\<lambda>out x. sort_insert f x out) acc xs) = mset acc + mset xs"
  by (induction xs arbitrary: acc) (simp_all add: mset_sort_insert)

lemma mset_Array_sort: "mset (Array_sort f xs) = mset xs"
  by (simp add: Array_sort_def mset_foldl_sort_insert)

lemma set_Array_sort: "set (Array_sort f xs) = set xs"
  using mset_Array_sort [of f xs] by (metis set_mset_mset)

lemma sorted_sort_insert:
  assumes "\<forall>y \<in> set ys. SortCompare f y x = k y - k x"
    and "sorted (map k ys)"
  shows "sorted (map k (sort_insert f x ys))"
  using assms
proof (induction ys)
  case Nil
  show ?case by simp
next
  case (Cons y ys)
  have s: "set (sort_insert f x ys) = insert x (set ys)"
    using mset_sort_insert [of f x ys] by (metis set_mset_add_mset_insert set_mset_mset)
  from Cons show ?case
    by (auto simp: s)
qed

lemma sorted_foldl_sort_insert:
  assumes "\<forall>a \<in> set acc \<union> set xs. \<forall>b \<in> set acc \<union> set xs. SortCompare f a b = k a - k b"
    and "sorted (map k acc)"
  shows "sorted (map k (foldl (\<lambda>out x. sort_insert f x out) acc xs))"
  using assms
proof (induction xs arbitrary: acc)
  case Nil
  then show ?case by simp
next
  case (Cons x xs)
  have s: "set (sort_insert f x acc) = insert x (set acc)"
    using mset_sort_insert [of f x acc] by (metis set_mset_add_mset_insert set_mset_mset)
  have "sorted (map k (sort_insert f x acc))"
    using Cons.prems by (intro sorted_sort_insert) auto
  moreover have "\<forall>a \<in> set (sort_insert f x acc) \<union> set xs.
                 \<forall>b \<in> set (sort_insert f x acc) \<union> set xs. SortCompare f a b = k a - k b"
    using Cons.prems(1) by (auto simp: s)
  ultimately show ?case using Cons.IH by simp
qed

lemma sorted_Array_sort:
  "\<forall>a \<in> set xs. \<forall>b \<in> set xs. SortCompare f a b = k a - k b \<Longrightarrow>
   sorted (map k (Array_sort f xs))"
  unfolding Array_sort_def by (rule sorted_foldl_sort_insert) simp_all

subsection \<open>Rows, toggling and splicing\<close>

lemma rows_of_fill: "rows_of (fill list) = list"
  by (cases list) (simp_all add: rows_of_def fill_def)

lemma mset_three_filters:
  "mset (filter (\<lambda>r. f r = Today) rows) + mset (filter (\<lambda>r. f r = Future) rows)
     + mset (filter (\<lambda>r. f r = Completed) rows) = mset rows"
proof (induction rows)
  case Nil
  show ?case by simp
next
  case (Cons r rows)
  then show ?case by (cases "f r") simp_all
qed

lemma mset_sorted_buckets:
  "mset (todayTasks (sorted_buckets P xs)) + mset (futureTasks (sorted_buckets P xs))
     + mset (completedTasks (sorted_buckets P xs)) = mset (zip xs [0..<length xs])"
  using mset_three_filters [of "\<lambda>r. classify P (fst r)" "zip xs [0..<length xs]"]
  by (simp add: sorted_buckets_def Let_def mset_Array_sort forEach_push_filter)

lemma rendered_rows_render:
  "loadTodoList w = Inr xs \<Longrightarrow>
   mset (rendered_rows (snd (renderTodoList P w))) = mset (zip xs [0..<length xs])"
  using mset_sorted_buckets [of P xs]
  by (simp add: renderTodoList_def rendered_rows_def Let_def rows_of_fill ac_simps)

lemma set_sorted_buckets:
  "set (todayTasks (sorted_buckets P xs)) =
     {r \<in> set (zip xs [0..<length xs]). classify P (fst r) = Today}"
  "set (futureTasks (sorted_buckets P xs)) =
     {r \<in> set (zip xs [0..<length xs]). classify P (fst r) = Future}"
  "set (completedTasks (sorted_buckets P xs)) =
     {r \<in> set (zip xs [0..<length xs]). classify P (fst r) = Completed}"
  by (simp_all add: sorted_buckets_def Let_def set_Array_sort forEach_push_filter)

lemma set_member_same: "map_of it k = Some v \<Longrightarrow> set_member k v it = it"
  by (induction it) (auto split: if_splits)

lemma set_member_twice: "set_member k v (set_member k u it) = set_member k v it"
  by (induction it) auto

lemma toggle_toggle:
  "toggle (toggle it) =
     set_member (str ''completed'') (Bool (ToBoolean (map_of it (str ''completed'')))) it"
  by (simp add: toggle_def map_of_set_member set_member_twice ToBoolean_def)

lemma toggle_flag:
  "ToBoolean (map_of (toggle it) (str ''completed'')) = (\<not> ToBoolean (map_of it (str ''completed'')))"
  by (simp add: toggle_def map_of_set_member ToBoolean_def)

lemma toggle_other: "k \<noteq> str ''completed'' \<Longrightarrow> map_of (toggle it) k = map_of it k"
  by (simp add: toggle_def map_of_set_member)

lemma toggle_toggle_bool:
  "map_of it (str ''completed'') = Some (Bool b) \<Longrightarrow> toggle (toggle it) = it"
  by (simp add: toggle_toggle ToBoolean_def set_member_same)

lemma nth_splice1:
  "j < length xs - 1 \<Longrightarrow> splice1 i xs ! j = xs ! (if j < i then j else Suc j)"
  by (auto simp: splice1_def nth_append min_def)

lemma length_splice1: "i < length xs \<Longrightarrow> Suc (length (splice1 i xs)) = length xs"
  by (auto simp: splice1_def)

subsection \<open>Which day counts as today\<close>

text \<open>
  For an open task dated YYYY-MM-DD, whether it is put in the today bucket depends on the
  sign of the time zone offset: at or east of UTC the date must be the local date of
  the clock, west of UTC the day after it.
\<close>

lemma classify_completed:
  "ToBoolean (map_of item (str ''completed'')) \<Longrightarrow> classify P item = Completed"
  by (simp add: classify_def Let_def)

lemma day_of_midnight_east:
  "0 \<le> z \<Longrightarrow> z < msPerDay \<Longrightarrow> (d * msPerDay + z) div msPerDay = d"
  by (simp add: msPerDay_def)

lemma day_of_midnight_west:
  assumes "- msPerDay < z" and "z < 0"
  shows "(d * msPerDay + z) div msPerDay = d - 1"
proof -
  have e: "((d - 1) * msPerDay + (z + msPerDay)) div msPerDay = d - 1"
    by (rule day_of_midnight_east) (use assms in simp_all)
  have s: "d * msPerDay + z = (d - 1) * msPerDay + (z + msPerDay)"
    by (simp add: algebra_simps)
  show ?thesis unfolding s by (rule e)
qed

lemma day_bounds:
  "(n div msPerDay) * msPerDay \<le> n \<and> n < (n div msPerDay) * msPerDay + msPerDay"
proof -
  have "0 \<le> n mod msPerDay" "n mod msPerDay < msPerDay"
    by (simp_all add: msPerDay_def)
  moreover have "n = (n div msPerDay) * msPerDay + n mod msPerDay"
    by simp
  ultimately show ?thesis by linarith
qed

lemma classify_iso_date:
  assumes open_task: "\<not> ToBoolean (map_of item (str ''completed''))"
    and date: "map_of item (str ''date'') = Some (Str s)" "iso_date s = Some (y, m, d)"
    and range: "\<bar>MakeDay y m d\<bar> < 100000000" "\<bar>now P\<bar> \<le> 8640000000000000 - msPerDay"
  shows "0 \<le> tza P \<Longrightarrow> tza P < msPerDay \<Longrightarrow>
           (classify P item = Today) = (MakeDay y m d = (now P + tza P) div msPerDay)"
    and "- msPerDay < tza P \<Longrightarrow> tza P < 0 \<Longrightarrow>
           (classify P item = Today) = (MakeDay y m d - 1 = (now P + tza P) div msPerDay)"
proof -
  define D where "D = MakeDay y m d"
  define q where "q = (now P + tza P) div msPerDay"
  have s: "s \<noteq> []" using date(2) by (auto simp: iso_date_def)
  have q: "q * msPerDay \<le> now P + tza P" "now P + tza P < q * msPerDay + msPerDay"
    unfolding q_def using day_bounds [of "now P + tza P"] by simp_all
  show "(classify P item = Today) = (MakeDay y m d = (now P + tza P) div msPerDay)"
    if "0 \<le> tza P" "tza P < msPerDay"
  proof -
    have "(D * msPerDay + tza P) div msPerDay = D"
      by (rule day_of_midnight_east [OF that])
    then show ?thesis
      using open_task date s range that q
      by (auto simp: classify_def Let_def ToBoolean_def new_Date_def Date_parse_def setHours0_def
                     TimeClip_def strict_equal_def D_def [symmetric] q_def [symmetric] msPerDay_def
               split: option.splits if_splits)
  qed
  show "(classify P item = Today) = (MakeDay y m d - 1 = (now P + tza P) div msPerDay)"
    if "- msPerDay < tza P" "tza P < 0"
  proof -
    have "(D * msPerDay + tza P) div msPerDay = D - 1"
      by (rule day_of_midnight_west [OF that])
    then show ?thesis
      using open_task date s range that q
      by (auto simp: classify_def Let_def ToBoolean_def new_Date_def Date_parse_def setHours0_def
                     TimeClip_def strict_equal_def D_def [symmetric] q_def [symmetric] msPerDay_def
               split: option.splits if_splits)
  qed
qed

section \<open>The claims\<close>

lemma wf_milk: "wf_item milk"
  by (simp add: milk_def wf_newItem)

lemma load_stored: "list_all wf_item its \<Longrightarrow> loadTodoList (stored its) = Inr its"
  unfolding stored_def by (rule load_save)

lemma load_eggs_form: "loadTodoList eggs_form = Inr [milk]"
proof -
  have "loadTodoList eggs_form = loadTodoList (stored [milk])"
    by (rule loadTodoList_storage) (simp add: eggs_form_def)
  then show ?thesis by (simp add: load_stored wf_milk)
qed

text \<open>
  Claim C5. Saving a sequence of task records and loading it again gives the same sequence,
  field for field.
\<close>

theorem save_then_load:
  "loadTodoList (saveTodoList (map task_item ts) w) = Inr (map task_item ts)"
  by (rule load_save) (simp add: list_all_iff wf_task_item)

text \<open>
  Claim C7. For a stored sequence of length n, deleteItem and toggleComplete with an index
  outside [0, n) change nothing and raise nothing.
\<close>

theorem out_of_range_is_noop:
  "loadTodoList w = Inr todoList \<Longrightarrow> index < 0 \<or> int (length todoList) \<le> index \<Longrightarrow>
   deleteItem P index w = (None, w) \<and> toggleComplete P index w = (None, w)"
  by (auto simp: deleteItem_def toggleComplete_def)

theorem out_of_range_is_noop_witness:
  "loadTodoList (stored [milk]) = Inr [milk]
   \<and> deleteItem utc 1 (stored [milk]) = (None, stored [milk])
   \<and> toggleComplete utc (- 1) (stored [milk]) = (None, stored [milk])"
proof -
  have l: "loadTodoList (stored [milk]) = Inr [milk]"
    by (rule load_stored) (simp add: wf_milk)
  show ?thesis
    using out_of_range_is_noop [OF l, of 1 utc] out_of_range_is_noop [OF l, of "- 1" utc] l
    by simp
qed

text \<open>
  Claim C2. On a stored sequence, a valid addItem makes the stored sequence one longer, a
  deleteItem at a valid index one shorter, a toggleComplete at a valid index leaves its
  length; in each case every record other than the targeted one is the record it was.
\<close>

theorem lengths_and_frame:
  assumes "loadTodoList w = Inr xs"
  shows "(trim (itemNameInput w) \<noteq> [] \<and> itemDeadlineInput w \<noteq> [] \<and> itemPrioritySelect w \<noteq> [] \<longrightarrow>
            (\<exists>x. loadTodoList (snd (addItem P w)) = Inr (xs @ [x])))
       \<and> (0 \<le> i \<and> i < int (length xs) \<longrightarrow>
            (\<exists>ys. loadTodoList (snd (deleteItem P i w)) = Inr ys \<and> Suc (length ys) = length xs
               \<and> (\<forall>j < length ys. ys ! j = xs ! (if j < nat i then j else Suc j))))
       \<and> (0 \<le> i \<and> i < int (length xs) \<longrightarrow>
            (\<exists>ys. loadTodoList (snd (toggleComplete P i w)) = Inr ys \<and> length ys = length xs
               \<and> (\<forall>j < length xs. j \<noteq> nat i \<longrightarrow> ys ! j = xs ! j)))"
proof (intro conjI impI)
  assume "trim (itemNameInput w) \<noteq> [] \<and> itemDeadlineInput w \<noteq> [] \<and> itemPrioritySelect w \<noteq> []"
  then show "\<exists>x. loadTodoList (snd (addItem P w)) = Inr (xs @ [x])"
    using addItem_valid(1) [OF assms, of P] by blast
next
  assume i: "0 \<le> i \<and> i < int (length xs)"
  then have n: "nat i < length xs" by (simp add: nat_less_iff)
  have "loadTodoList (snd (deleteItem P i w)) = Inr (splice1 (nat i) xs)"
    using deleteItem_valid(1) [OF assms, of i P] i by simp
  moreover have "Suc (length (splice1 (nat i) xs)) = length xs"
    by (rule length_splice1 [OF n])
  moreover have "\<forall>j < length (splice1 (nat i) xs).
                   splice1 (nat i) xs ! j = xs ! (if j < nat i then j else Suc j)"
    using length_splice1 [OF n] by (auto simp: nth_splice1)
  ultimately show "\<exists>ys. loadTodoList (snd (deleteItem P i w)) = Inr ys \<and> Suc (length ys) = length xs
               \<and> (\<forall>j < length ys. ys ! j = xs ! (if j < nat i then j else Suc j))"
    by blast
next
  assume i: "0 \<le> i \<and> i < int (length xs)"
  have "loadTodoList (snd (toggleComplete P i w)) = Inr (xs[nat i := toggle (xs ! nat i)])"
    using toggleComplete_valid(1) [OF assms, of i P] i by simp
  then show "\<exists>ys. loadTodoList (snd (toggleComplete P i w)) = Inr ys \<and> length ys = length xs
               \<and> (\<forall>j < length xs. j \<noteq> nat i \<longrightarrow> ys ! j = xs ! j)"
    by auto
qed

theorem lengths_and_frame_witness:
  "loadTodoList eggs_form = Inr [milk]
   \<and> (\<exists>x. loadTodoList (snd (addItem utc eggs_form)) = Inr ([milk] @ [x]))
   \<and> (\<exists>ys. loadTodoList (snd (deleteItem utc 0 eggs_form)) = Inr ys \<and> Suc (length ys) = length [milk])
   \<and> (\<exists>ys. loadTodoList (snd (toggleComplete utc 0 eggs_form)) = Inr ys \<and> length ys = length [milk])"
proof -
  have t: "trim (itemNameInput eggs_form) \<noteq> []"
    by (simp add: eggs_form_def trim_def is_space_def str_def)
  have f: "itemDeadlineInput eggs_form \<noteq> [] \<and> itemPrioritySelect eggs_form \<noteq> []"
    by (simp add: eggs_form_def str_def)
  show ?thesis
    using lengths_and_frame [OF load_eggs_form, of utc 0] t f load_eggs_form
    by simp
qed

text \<open>
  Claim C9. Deleting a valid index i from a stored sequence of length n leaves the n - 1
  other records in their order, and the rows rendered afterwards carry the positions of
  the new array.
\<close>

theorem delete_renumbers:
  assumes "loadTodoList w = Inr xs" and "0 \<le> i" and "i < int (length xs)"
  shows "loadTodoList (snd (deleteItem P i w)) = Inr (take (nat i) xs @ drop (Suc (nat i)) xs)
       \<and> length (take (nat i) xs @ drop (Suc (nat i)) xs) = length xs - 1
       \<and> mset (rendered_rows (snd (deleteItem P i w))) =
           mset (zip (take (nat i) xs @ drop (Suc (nat i)) xs) [0..<length xs - 1])"
proof -
  let ?ys = "take (nat i) xs @ drop (Suc (nat i)) xs"
  have n: "nat i < length xs" using assms by (simp add: nat_less_iff)
  have len: "length ?ys = length xs - 1" using n by auto
  have l: "loadTodoList (snd (deleteItem P i w)) = Inr ?ys"
    using deleteItem_valid(1) [OF assms, of P] by (simp add: splice1_def)
  have d: "deleteItem P i w = renderTodoList P (saveTodoList ?ys w)"
    using assms by (simp add: deleteItem_def splice1_def)
  have "loadTodoList (saveTodoList ?ys w) = Inr ?ys"
    using l load_after_render [of P "saveTodoList ?ys w"] by (simp add: d)
  from rendered_rows_render [OF this, of P]
  have "mset (rendered_rows (snd (deleteItem P i w))) = mset (zip ?ys [0..<length ?ys])"
    by (simp add: d)
  with l len show ?thesis by simp
qed

theorem delete_renumbers_witness:
  "loadTodoList (stored [milk, open_task ''2024-02-01'']) = Inr [milk, open_task ''2024-02-01'']
   \<and> loadTodoList (snd (deleteItem utc 0 (stored [milk, open_task ''2024-02-01''])))
       = Inr [open_task ''2024-02-01'']
   \<and> mset (rendered_rows (snd (deleteItem utc 0 (stored [milk, open_task ''2024-02-01''])))) =
       mset [(open_task ''2024-02-01'', 0)]"
proof -
  have l: "loadTodoList (stored [milk, open_task ''2024-02-01'']) = Inr [milk, open_task ''2024-02-01'']"
    by (rule load_stored) (simp add: wf_milk open_task_def wf_newItem)
  show ?thesis
    using delete_renumbers [OF l, of 0 utc] l by simp
qed

text \<open>
  Claim C8. Toggling the same valid index twice brings the record's completed flag back to
  what it was; a record whose completed field is a boolean is the record it was.
\<close>

theorem toggle_twice:
  assumes "loadTodoList w = Inr xs" and "0 \<le> i" and "i < int (length xs)"
  shows "\<exists>ys. loadTodoList (snd (toggleComplete P i (snd (toggleComplete P i w)))) = Inr ys
          \<and> length ys = length xs
          \<and> ToBoolean (map_of (ys ! nat i) (str ''completed''))
              = ToBoolean (map_of (xs ! nat i) (str ''completed''))
          \<and> (\<forall>b. map_of (xs ! nat i) (str ''completed'') = Some (Bool b) \<longrightarrow> ys = xs)"
proof -
  let ?xs' = "xs[nat i := toggle (xs ! nat i)]"
  let ?ys = "xs[nat i := toggle (toggle (xs ! nat i))]"
  have n: "nat i < length xs" using assms by (simp add: nat_less_iff)
  have 1: "loadTodoList (snd (toggleComplete P i w)) = Inr ?xs'"
    by (rule toggleComplete_valid(1) [OF assms])
  have "i < int (length ?xs')" using assms by simp
  from toggleComplete_valid(1) [OF 1 assms(2) this, of P]
  have 2: "loadTodoList (snd (toggleComplete P i (snd (toggleComplete P i w)))) = Inr ?ys"
    using n by simp
  have 3: "ToBoolean (map_of (?ys ! nat i) (str ''completed''))
            = ToBoolean (map_of (xs ! nat i) (str ''completed''))"
    using n by (simp add: toggle_flag)
  have 4: "\<forall>b. map_of (xs ! nat i) (str ''completed'') = Some (Bool b) \<longrightarrow> ?ys = xs"
    by (simp add: toggle_toggle_bool)
  from 2 3 4 show ?thesis by (intro exI [of _ ?ys]) simp
qed

theorem toggle_twice_witness:
  "loadTodoList (stored [milk]) = Inr [milk]
   \<and> map_of ([milk] ! nat 0) (str ''completed'') = Some (Bool False)
   \<and> loadTodoList (snd (toggleComplete utc 0 (snd (toggleComplete utc 0 (stored [milk]))))) = Inr [milk]"
proof -
  have l: "loadTodoList (stored [milk]) = Inr [milk]"
    by (rule load_stored) (simp add: wf_milk)
  have c: "map_of ([milk] ! nat 0) (str ''completed'') = Some (Bool False)"
    by (simp add: milk_def newItem_def str_def)
  show ?thesis
    using toggle_twice [OF l, of 0 utc] l c by auto
qed

lemma dated_rows:
  assumes "list_all (dated P) xs" and "r \<in> set (zip xs [0..<length xs])"
  shows "\<exists>t. new_Date P (map_of (fst r) (str ''date'')) = Some t"
proof -
  obtain a b where r: "r = (a, b)" by (cases r)
  with assms(2) have "a \<in> set xs" by (auto dest: set_zip_leftD)
  with assms(1) show ?thesis by (auto simp: r list_all_iff dated_def)
qed

lemma date_minus_dated:
  assumes "\<exists>x. new_Date P (map_of (fst a) (str ''date'')) = Some x"
    and "\<exists>y. new_Date P (map_of (fst b) (str ''date'')) = Some y"
  shows "SortCompare (date_minus P) a b = date_value P a - date_value P b"
    and "SortCompare (\<lambda>a b. date_minus P b a) a b = - date_value P a - - date_value P b"
    and "not_later P a b = (date_value P a \<le> date_value P b)"
  using assms by (auto simp: SortCompare_def date_minus_def date_value_def not_later_def)

lemma sorted_ascending:
  assumes "\<forall>r \<in> set rows. \<exists>t. new_Date P (map_of (fst r) (str ''date'')) = Some t"
  shows "sorted_wrt (not_later P) (Array_sort (\<lambda>a b. date_minus P a b) rows)"
proof -
  have "\<forall>a \<in> set rows. \<forall>b \<in> set rows.
          SortCompare (date_minus P) a b = date_value P a - date_value P b"
    using assms by (intro ballI date_minus_dated(1)) blast+
  then have "sorted (map (date_value P) (Array_sort (\<lambda>a b. date_minus P a b) rows))"
    by (intro sorted_Array_sort)
  then have "sorted_wrt (\<lambda>a b. date_value P a \<le> date_value P b)
               (Array_sort (\<lambda>a b. date_minus P a b) rows)"
    by (simp add: sorted_map)
  moreover have "not_later P a b"
    if "a \<in> set (Array_sort (\<lambda>a b. date_minus P a b) rows)"
      and "b \<in> set (Array_sort (\<lambda>a b. date_minus P a b) rows)"
      and "date_value P a \<le> date_value P b" for a b
    using that assms date_minus_dated(3) [of P a b] by (simp add: set_Array_sort)
  ultimately show ?thesis
    by (rule sorted_wrt_mono_rel [rotated])
qed

lemma sorted_descending:
  assumes "\<forall>r \<in> set rows. \<exists>t. new_Date P (map_of (fst r) (str ''date'')) = Some t"
  shows "sorted_wrt (\<lambda>a b. not_later P b a) (Array_sort (\<lambda>a b. date_minus P b a) rows)"
proof -
  have "\<forall>a \<in> set rows. \<forall>b \<in> set rows.
          SortCompare (\<lambda>a b. date_minus P b a) a b = - date_value P a - - date_value P b"
    using assms by (intro ballI date_minus_dated(2)) blast+
  then have "sorted (map (\<lambda>r. - date_value P r) (Array_sort (\<lambda>a b. date_minus P b a) rows))"
    by (intro sorted_Array_sort)
  then have "sorted_wrt (\<lambda>a b. - date_value P a \<le> - date_value P b)
               (Array_sort (\<lambda>a b. date_minus P b a) rows)"
    by (simp add: sorted_map)
  moreover have "not_later P b a"
    if "a \<in> set (Array_sort (\<lambda>a b. date_minus P b a) rows)"
      and "b \<in> set (Array_sort (\<lambda>a b. date_minus P b a) rows)"
      and "- date_value P a \<le> - date_value P b" for a b
    using that assms date_minus_dated(3) [of P b a] by (simp add: set_Array_sort)
  ultimately show ?thesis
    by (rule sorted_wrt_mono_rel [rotated])
qed

text \<open>
  Claim C4. When every task has a date that the platform can read, the today and future
  buckets come out earliest first and the completed bucket latest first; the two
  orderings of the claim are checked on its own dates.
\<close>

theorem buckets_sorted:
  "(list_all (dated P) xs \<longrightarrow>
      sorted_wrt (not_later P) (todayTasks (sorted_buckets P xs))
    \<and> sorted_wrt (not_later P) (futureTasks (sorted_buckets P xs))
    \<and> sorted_wrt (\<lambda>a b. not_later P b a) (completedTasks (sorted_buckets P xs)))
   \<and> futureTasks (sorted_buckets new_year
        [open_task ''2024-01-10'', open_task ''2024-01-05'', open_task ''2024-01-20''])
      = [(open_task ''2024-01-05'', 1), (open_task ''2024-01-10'', 0), (open_task ''2024-01-20'', 2)]
   \<and> completedTasks (sorted_buckets new_year [done_task ''2024-02-01'', done_task ''2024-03-01''])
      = [(done_task ''2024-03-01'', 1), (done_task ''2024-02-01'', 0)]"
proof (intro conjI impI)
  assume d: "list_all (dated P) xs"
  have sub: "\<forall>r \<in> set (filter f (zip xs [0..<length xs])).
               \<exists>t. new_Date P (map_of (fst r) (str ''date'')) = Some t" for f
    using dated_rows [OF d] by auto
  show "sorted_wrt (not_later P) (todayTasks (sorted_buckets P xs))"
    by (simp add: sorted_buckets_def Let_def forEach_push_filter sorted_ascending [OF sub])
  show "sorted_wrt (not_later P) (futureTasks (sorted_buckets P xs))"
    by (simp add: sorted_buckets_def Let_def forEach_push_filter sorted_ascending [OF sub])
  show "sorted_wrt (\<lambda>a b. not_later P b a) (completedTasks (sorted_buckets P xs))"
    by (simp add: sorted_buckets_def Let_def forEach_push_filter sorted_descending [OF sub])
next
  show "futureTasks (sorted_buckets new_year
        [open_task ''2024-01-10'', open_task ''2024-01-05'', open_task ''2024-01-20''])
      = [(open_task ''2024-01-05'', 1), (open_task ''2024-01-10'', 0), (open_task ''2024-01-20'', 2)]"
    by code_simp
next
  show "completedTasks (sorted_buckets new_year [done_task ''2024-02-01'', done_task ''2024-03-01''])
      = [(done_task ''2024-03-01'', 1), (done_task ''2024-02-01'', 0)]"
    by code_simp
qed

theorem buckets_sorted_witness:
  "list_all (dated new_year) [open_task ''2024-01-10'', open_task ''2024-01-05'', open_task ''2024-01-20'']
   \<and> sorted_wrt (not_later new_year) (futureTasks (sorted_buckets new_year
        [open_task ''2024-01-10'', open_task ''2024-01-05'', open_task ''2024-01-20'']))"
proof -
  have d: "list_all (dated new_year)
             [open_task ''2024-01-10'', open_task ''2024-01-05'', open_task ''2024-01-20'']"
    by code_simp
  with buckets_sorted [of new_year
      "[open_task ''2024-01-10'', open_task ''2024-01-05'', open_task ''2024-01-20'']"]
  show ?thesis by blast
qed

text \<open>
  Claim C6, as the code has it. addItem trims the name first: when the trimmed name, the
  date or the priority is empty it alerts and changes nothing else; otherwise it appends a
  record with the trimmed name and completed = false, and clears the three inputs.
\<close>

theorem addItem_validates_trimmed_name:
  "(trim (itemNameInput w) = [] \<or> itemDeadlineInput w = [] \<or> itemPrioritySelect w = [] \<longrightarrow>
      addItem P w = (None, w\<lparr>alerts := alerts w @ [alert_text]\<rparr>))
   \<and> (trim (itemNameInput w) \<noteq> [] \<and> itemDeadlineInput w \<noteq> [] \<and> itemPrioritySelect w \<noteq> []
        \<and> loadTodoList w = Inr xs \<longrightarrow>
      loadTodoList (snd (addItem P w)) =
        Inr (xs @ [newItem (trim (itemNameInput w)) (itemDeadlineInput w) (itemPrioritySelect w)])
      \<and> map_of (newItem (trim (itemNameInput w)) (itemDeadlineInput w) (itemPrioritySelect w))
           (str ''completed'') = Some (Bool False)
      \<and> itemNameInput (snd (addItem P w)) = []
      \<and> itemDeadlineInput (snd (addItem P w)) = []
      \<and> itemPrioritySelect (snd (addItem P w)) = []
      \<and> alerts (snd (addItem P w)) = alerts w
      \<and> fst (addItem P w) = None)"
proof (intro conjI impI)
  assume "trim (itemNameInput w) = [] \<or> itemDeadlineInput w = [] \<or> itemPrioritySelect w = []"
  then show "addItem P w = (None, w\<lparr>alerts := alerts w @ [alert_text]\<rparr>)"
    by (auto simp: addItem_def Let_def)
next
  show "map_of (newItem (trim (itemNameInput w)) (itemDeadlineInput w) (itemPrioritySelect w))
           (str ''completed'') = Some (Bool False)"
    by (simp add: newItem_def str_def)
qed (simp_all add: addItem_valid)

theorem addItem_validates_trimmed_name_witness:
  "trim (itemNameInput blank_name) = []
   \<and> addItem utc blank_name = (None, blank_name\<lparr>alerts := alerts blank_name @ [alert_text]\<rparr>)
   \<and> trim (itemNameInput eggs_form) = str ''eggs''
   \<and> loadTodoList eggs_form = Inr [milk]
   \<and> loadTodoList (snd (addItem utc eggs_form)) =
        Inr [milk, newItem (str ''eggs'') (str ''2024-01-11'') (str ''low'')]
   \<and> itemNameInput (snd (addItem utc eggs_form)) = []"
proof -
  have b: "trim (itemNameInput blank_name) = []"
    by (simp add: blank_name_def trim_def is_space_def str_def)
  have t: "trim (itemNameInput eggs_form) = str ''eggs''"
    by (simp add: eggs_form_def trim_def is_space_def str_def)
  have f: "itemDeadlineInput eggs_form = str ''2024-01-11''" "itemPrioritySelect eggs_form = str ''low''"
    by (simp_all add: eggs_form_def)
  have n: "str ''eggs'' \<noteq> []" "str ''2024-01-11'' \<noteq> []" "str ''low'' \<noteq> []"
    by (simp_all add: str_def)
  show ?thesis
    using addItem_validates_trimmed_name [where w = blank_name and P = utc]
      addItem_validates_trimmed_name [where w = eggs_form and xs = "[milk]" and P = utc]
      b t f n load_eggs_form
    by simp
qed

text \<open>
  Against claim C6 as stated: no input field is empty (the name holds three spaces), yet
  addItem alerts, appends nothing and leaves the inputs as they are.
\<close>

theorem blank_name_is_rejected:
  "itemNameInput blank_name \<noteq> [] \<and> itemDeadlineInput blank_name \<noteq> []
   \<and> itemPrioritySelect blank_name \<noteq> []
   \<and> loadTodoList blank_name = Inr [milk]
   \<and> loadTodoList (snd (addItem utc blank_name)) = Inr [milk]
   \<and> alerts (snd (addItem utc blank_name)) = [alert_text]
   \<and> itemNameInput (snd (addItem utc blank_name)) = itemNameInput blank_name"
  by code_simp

text \<open>
  Claim C1, as the code has it. loadTodoList gives the empty sequence when the key is absent
  or holds the empty string, and the sequence that saveTodoList stored; a stored text that
  JSON.parse rejects makes loadTodoList raise SyntaxError.
\<close>

theorem load_absent_saved_malformed:
  "(storage w = None \<or> storage w = Some [] \<longrightarrow> loadTodoList w = Inr [])
   \<and> loadTodoList (saveTodoList (map task_item ts) w) = Inr (map task_item ts)
   \<and> (storage w = Some todoJson \<and> todoJson \<noteq> [] \<and> JSON_parse todoJson = Inl SyntaxError \<longrightarrow>
        loadTodoList w = Inl SyntaxError)"
proof (intro conjI impI)
  show "loadTodoList (saveTodoList (map task_item ts) w) = Inr (map task_item ts)"
    by (rule load_save) (simp add: list_all_iff wf_task_item)
qed (auto simp: loadTodoList_def)

theorem load_absent_saved_malformed_witness:
  "loadTodoList page = Inr []
   \<and> JSON_parse (str ''undefined'') = Inl SyntaxError
   \<and> loadTodoList (page\<lparr>storage := Some (str ''undefined'')\<rparr>) = Inl SyntaxError"
proof -
  have p: "JSON_parse (str ''undefined'') = Inl SyntaxError" by code_simp
  have n: "str ''undefined'' \<noteq> []" by (simp add: str_def)
  show ?thesis
    using load_absent_saved_malformed [where w = page]
      load_absent_saved_malformed [where w = "page\<lparr>storage := Some (str ''undefined'')\<rparr>"
        and todoJson = "str ''undefined''"]
      p n
    by (simp add: page_def)
qed

text \<open>
  Against claim C1 as stated: the stored text "undefined" is not JSON, and loadTodoList
  raises SyntaxError instead of returning an empty sequence.
\<close>

theorem malformed_storage_raises:
  "loadTodoList (page\<lparr>storage := Some (str ''undefined'')\<rparr>) = Inl SyntaxError
   \<and> loadTodoList (page\<lparr>storage := Some (str ''undefined'')\<rparr>) \<noteq> Inr []"
  by code_simp

text \<open>
  Claim C3, at the input where the code departs from it. In a time zone five hours behind
  UTC, at noon of 10 January 2024, an open task dated 2024-01-10 is put in the future
  bucket, and an open task dated 2024-01-11 in the today bucket.
\<close>

theorem task_dated_today_is_put_in_future:
  "iso_date (str ''2024-01-10'') = Some (2024, 1, 10)
   \<and> MakeDay 2024 1 10 = 19732
   \<and> (now bogota + tza bogota) div msPerDay = 19732
   \<and> classify bogota (open_task ''2024-01-10'') = Future
   \<and> classify bogota (open_task ''2024-01-11'') = Today
   \<and> todayTasksContainer (snd (renderTodoList bogota (stored [open_task ''2024-01-10''])))
       = NoTasks
   \<and> futureTasksContainer (snd (renderTodoList bogota (stored [open_task ''2024-01-10''])))
       = Rows [(open_task ''2024-01-10'', 0)]
   \<and> classify utc (open_task ''2024-01-10'') = Today"
  by code_simp

lemma wf_undated: "wf_item undated"
  by (simp add: wf_item_def in_model_def index_like_def is_digit_def undated_def date_ok_def str_def)

text \<open>
  Claim C10. An open task of the loaded sequence whose date is absent or empty is put in
  the future bucket and not in the today bucket; a task is put in the today bucket only
  when its date is a non-empty string that the platform reads as a time whose midnight is
  today's midnight.
\<close>

theorem undated_is_future:
  assumes "loadTodoList w = Inr xs" and "k < length xs"
  shows "(\<not> ToBoolean (map_of (xs ! k) (str ''completed''))
          \<and> (map_of (xs ! k) (str ''date'') = None \<or> map_of (xs ! k) (str ''date'') = Some (Str []))
          \<longrightarrow> classify P (xs ! k) = Future
             \<and> (xs ! k, k) \<in> set (futureTasks (sorted_buckets P xs))
             \<and> (xs ! k, k) \<notin> set (todayTasks (sorted_buckets P xs)))
       \<and> (classify P (xs ! k) = Today \<longrightarrow>
            (\<exists>s t. map_of (xs ! k) (str ''date'') = Some (Str s) \<and> s \<noteq> []
                  \<and> Date_parse P s = Some t
                  \<and> strict_equal (setHours0 P (Some t)) (setHours0 P (Some (now P)))))"
proof (intro conjI impI)
  assume a: "\<not> ToBoolean (map_of (xs ! k) (str ''completed''))
          \<and> (map_of (xs ! k) (str ''date'') = None \<or> map_of (xs ! k) (str ''date'') = Some (Str []))"
  then have c: "classify P (xs ! k) = Future"
    by (auto simp: classify_def Let_def ToBoolean_def)
  have z: "(xs ! k, k) \<in> set (zip xs [0..<length xs])"
    using assms(2) by (auto simp: set_zip)
  show "classify P (xs ! k) = Future" by (rule c)
  show "(xs ! k, k) \<in> set (futureTasks (sorted_buckets P xs))"
    using c z by (simp add: set_sorted_buckets)
  show "(xs ! k, k) \<notin> set (todayTasks (sorted_buckets P xs))"
    using c by (simp add: set_sorted_buckets)
next
  assume t: "classify P (xs ! k) = Today"
  have "wf_item (xs ! k)"
    using loaded_wf [OF assms(1)] assms(2) by (simp add: list_all_length)
  then have ok: "date_ok (xs ! k)" by (simp add: wf_item_def in_model_def)
  from t have tb: "ToBoolean (map_of (xs ! k) (str ''date''))"
    by (auto simp: classify_def Let_def split: if_splits)
  with ok obtain s where s: "map_of (xs ! k) (str ''date'') = Some (Str s)" "s \<noteq> []"
    by (auto simp: ToBoolean_def date_ok_def split: option.splits prim.splits)
  from t s have eq: "strict_equal (setHours0 P (Date_parse P s)) (setHours0 P (Some (now P)))"
    by (auto simp: classify_def Let_def ToBoolean_def new_Date_def split: if_splits)
  then obtain t' where "Date_parse P s = Some t'"
    by (cases "Date_parse P s") (auto simp: strict_equal_def setHours0_def)
  with s eq show "\<exists>s t. map_of (xs ! k) (str ''date'') = Some (Str s) \<and> s \<noteq> []
                  \<and> Date_parse P s = Some t
                  \<and> strict_equal (setHours0 P (Some t)) (setHours0 P (Some (now P)))"
    by auto
qed

theorem undated_is_future_witness:
  "loadTodoList (stored [undated]) = Inr [undated]
   \<and> \<not> ToBoolean (map_of ([undated] ! 0) (str ''completed''))
   \<and> map_of ([undated] ! 0) (str ''date'') = None
   \<and> classify utc ([undated] ! 0) = Future
   \<and> ([undated] ! 0, 0) \<in> set (futureTasks (sorted_buckets utc [undated]))"
proof -
  have l: "loadTodoList (stored [undated]) = Inr [undated]"
    by (rule load_stored) (simp add: wf_undated)
  have c: "\<not> ToBoolean (map_of ([undated] ! 0) (str ''completed''))"
    "map_of ([undated] ! 0) (str ''date'') = None"
    by (simp_all add: undated_def ToBoolean_def str_def)
  show ?thesis
    using undated_is_future [OF l, of 0 utc] l c by simp
qed

end
